theory Spec2Isabelle
  imports
    Complex_Main
    "HOL-Library.Multiset"
    "HOL-Library.Char_ord"
    "HOL-Library.List_Lexorder"
    "HOL-Library.Sublist"
    "HOL-Library.AList"
begin

section \<open>Python values\<close>

text \<open>
  The evaluators of \<^verbatim>\<open>templates/evaluators.py\<close> read untyped dictionaries
  (\<^verbatim>\<open>run.outputs\<close>, \<^verbatim>\<open>example.outputs\<close>, the judge's parsed JSON reply), so the
  model carries a type of dynamically typed Python values. A dictionary is an
  association list in insertion order with string keys. A Python \<^verbatim>\<open>float\<close> is
  modelled by the rational number it denotes and arithmetic is exact: rounding,
  infinities and NaN are outside the model.
\<close>

datatype pyval =
    PNone
  | PBool bool
  | PInt int
  | PFloat rat
  | PStr string
  | PList "pyval list"
  | PDict "(string \<times> pyval) list"

type_synonym dict = "(string \<times> pyval) list"

text \<open>
  Exceptions. Only the class of a built-in exception is modelled; an exception
  coming from outside the repository (the judge client, the JSON parser, the
  run-storage backend) keeps an opaque description.
\<close>

datatype exn =
    TypeError
  | AttributeError
  | KeyError string
  | ZeroDivisionError
  | ValueError
  | IndexError
  | External string

text \<open>
  Formatted text. An f-string is kept as the list of its parts, so that the
  model does not have to fix how Python prints a float or the \<^verbatim>\<open>repr\<close> of a list.
\<close>

datatype fpart =
    Lit string             \<comment> \<open>literal text\<close>
  | Str pyval              \<comment> \<open>\<^verbatim>\<open>{v}\<close>: \<^verbatim>\<open>str(v)\<close>\<close>
  | StrTake nat pyval      \<comment> \<open>\<^verbatim>\<open>str(v)[:n]\<close>\<close>
  | ErrStr exn             \<comment> \<open>\<^verbatim>\<open>{e}\<close> for a caught exception\<close>
  | Fixed nat nat rat      \<comment> \<open>\<^verbatim>\<open>{x:>w.pf}\<close>: width \<open>w\<close> (0 for none), \<open>p\<close> decimals\<close>

type_synonym ftext = "fpart list"




text \<open>The value stored in a result's \<^verbatim>\<open>comment\<close>: a built string, or any object.\<close>

datatype comment_val = Text ftext | Obj pyval

subsection \<open>Operations on values\<close>

text \<open>Truth value testing (\<^verbatim>\<open>if x\<close>, \<^verbatim>\<open>not x\<close>, \<^verbatim>\<open>x or y\<close>).\<close>

fun truthy :: "pyval \<Rightarrow> bool" where
  "truthy PNone = False"
| "truthy (PBool b) = b"
| "truthy (PInt i) = (i \<noteq> 0)"
| "truthy (PFloat r) = (r \<noteq> 0)"
| "truthy (PStr s) = (s \<noteq> [])"
| "truthy (PList xs) = (xs \<noteq> [])"
| "truthy (PDict d) = (d \<noteq> [])"

definition py_or :: "pyval \<Rightarrow> pyval \<Rightarrow> pyval" where
  "py_or a b = (if truthy a then a else b)"

text \<open>\<^verbatim>\<open>d.get(k, default)\<close> on a dictionary.\<close>

definition dict_get :: "dict \<Rightarrow> string \<Rightarrow> pyval \<Rightarrow> pyval" where
  "dict_get d k dflt = (case map_of d k of Some v \<Rightarrow> v | None \<Rightarrow> dflt)"

text \<open>\<^verbatim>\<open>x or {}\<close> for an optional dictionary.\<close>

definition or_empty :: "dict option \<Rightarrow> dict" where
  "or_empty d = (case d of None \<Rightarrow> [] | Some d' \<Rightarrow> d')"

text \<open>\<^verbatim>\<open>v.get(k, default)\<close> on an arbitrary value: only a dictionary has \<^verbatim>\<open>get\<close>.\<close>

fun attr_get :: "pyval \<Rightarrow> string \<Rightarrow> pyval \<Rightarrow> exn + pyval" where
  "attr_get (PDict d) k dflt = Inr (dict_get d k dflt)"
| "attr_get _ k dflt = Inl AttributeError"

text \<open>\<^verbatim>\<open>d.get(k)\<close> for an arbitrary key object: the key is hashed first.\<close>

fun hashable :: "pyval \<Rightarrow> bool" where
  "hashable (PList xs) = False"
| "hashable (PDict d) = False"
| "hashable _ = True"

definition get_by_val :: "dict \<Rightarrow> pyval \<Rightarrow> exn + pyval" where
  "get_by_val d k =
     (if \<not> hashable k then Inl TypeError
      else case k of PStr s \<Rightarrow> Inr (dict_get d s PNone) | _ \<Rightarrow> Inr PNone)"

text \<open>\<^verbatim>\<open>len(v)\<close>.\<close>

fun py_len :: "pyval \<Rightarrow> exn + nat" where
  "py_len (PStr s) = Inr (length s)"
| "py_len (PList xs) = Inr (length xs)"
| "py_len (PDict d) = Inr (length d)"
| "py_len _ = Inl TypeError"

text \<open>\<^verbatim>\<open>for x in v\<close>: the items an iteration yields.\<close>

fun py_iter :: "pyval \<Rightarrow> exn + pyval list" where
  "py_iter (PStr s) = Inr (map (\<lambda>c. PStr [c]) s)"
| "py_iter (PList xs) = Inr xs"
| "py_iter (PDict d) = Inr (map (\<lambda>(k, v). PStr k) d)"
| "py_iter _ = Inl TypeError"

text \<open>
  \<^verbatim>\<open>v[:n]\<close>. Slicing a dictionary raises (\<^verbatim>\<open>KeyError\<close> from Python 3.12 on, where a
  slice is hashable; \<^verbatim>\<open>TypeError\<close> before).
\<close>

fun py_slice_to :: "nat \<Rightarrow> pyval \<Rightarrow> exn + pyval" where
  "py_slice_to n (PStr s) = Inr (PStr (take n s))"
| "py_slice_to n (PList xs) = Inr (PList (take n xs))"
| "py_slice_to n (PDict d) = Inl (KeyError ''slice'')"
| "py_slice_to n _ = Inl TypeError"

text \<open>Numbers: \<^verbatim>\<open>bool\<close> is a subclass of \<^verbatim>\<open>int\<close>.\<close>

fun num_of :: "pyval \<Rightarrow> rat option" where
  "num_of (PBool b) = Some (if b then 1 else 0)"
| "num_of (PInt i) = Some (of_int i)"
| "num_of (PFloat r) = Some r"
| "num_of _ = None"

text \<open>True division \<^verbatim>\<open>a / b\<close>.\<close>

definition py_truediv :: "pyval \<Rightarrow> pyval \<Rightarrow> exn + rat" where
  "py_truediv a b =
     (case (num_of a, num_of b) of
        (Some x, Some y) \<Rightarrow> if y = 0 then Inl ZeroDivisionError else Inr (x / y)
      | _ \<Rightarrow> Inl TypeError)"

text \<open>\<^verbatim>\<open>s.lower()\<close>, on the ASCII letters.\<close>

definition lower_char :: "char \<Rightarrow> char" where
  "lower_char c =
     (case map_of (zip ''ABCDEFGHIJKLMNOPQRSTUVWXYZ'' ''abcdefghijklmnopqrstuvwxyz'') c of
        Some l \<Rightarrow> l
      | None \<Rightarrow> c)"

fun py_lower :: "pyval \<Rightarrow> exn + string" where
  "py_lower (PStr s) = Inr (map lower_char s)"
| "py_lower _ = Inl AttributeError"

text \<open>Sequencing of computations that may raise.\<close>

definition and_then :: "exn + 'a \<Rightarrow> ('a \<Rightarrow> exn + 'b) \<Rightarrow> exn + 'b" where
  "and_then m f = (case m of Inl e \<Rightarrow> Inl e | Inr x \<Rightarrow> f x)"

section \<open>Runs and results\<close>

text \<open>
  The fields of a LangSmith \<^verbatim>\<open>Run\<close> that the repository reads. A timestamp is the
  number of seconds since some fixed instant; a \<^verbatim>\<open>datetime\<close> object is always
  truthy, so \<^verbatim>\<open>not run.start_time\<close> holds exactly when the field is \<^verbatim>\<open>None\<close>.
\<close>

type_synonym stats = "(string \<times> rat) list"

record run =
  outputs :: "dict option"
  error :: "string option"
  start_time :: "rat option"
  end_time :: "rat option"
  extra :: "dict option"
  inputs :: "dict option"
  feedback_stats :: "(string \<times> stats) list option"

record EvalResult =
  key :: string
  score :: pyval
  comment :: comment_val

text \<open>
  The first truthy value among the fields \<^verbatim>\<open>final_report\<close>, \<^verbatim>\<open>output\<close> and
  \<^verbatim>\<open>response\<close>, each read with the given default (\<^verbatim>\<open>a or b or c\<close>).
\<close>

definition main_text :: "pyval \<Rightarrow> dict \<Rightarrow> pyval" where
  "main_text dflt output =
     py_or (dict_get output ''final_report'' dflt)
       (py_or (dict_get output ''output'' dflt) (dict_get output ''response'' dflt))"

section \<open>Tier 1: automated evaluators\<close>

fun present_fields :: "dict \<Rightarrow> pyval list \<Rightarrow> exn + pyval list" where
  "present_fields output [] = Inr []"
| "present_fields output (f # fs) =
     and_then (get_by_val output f) (\<lambda>v.
     and_then (present_fields output fs) (\<lambda>rest.
       Inr (if v \<noteq> PNone then f # rest else rest)))"

definition schema_evaluator :: "run \<Rightarrow> dict \<Rightarrow> exn + EvalResult" where
  "schema_evaluator run example_outputs =
     (let output = or_empty (outputs run);
          expected = dict_get example_outputs ''expected_fields'' (PList [])
      in if \<not> truthy expected then
           Inr \<lparr>key = ''schema_valid'', score = PFloat 1,
                comment = Text [Lit ''No expected fields defined'']\<rparr>
         else
           and_then (py_iter expected) (\<lambda>fs.
           and_then (present_fields output fs) (\<lambda>present.
           let missing = filter (\<lambda>f. f \<notin> set present) fs in
           and_then (py_len expected) (\<lambda>n.
           and_then (py_truediv (PInt (int (length present))) (PInt (int n))) (\<lambda>score.
             Inr \<lparr>key = ''schema_valid'', score = PFloat score,
                  comment =
                    (if score = 1
                     then Text [Lit ''All fields present ('', Str (PInt (int (length present))),
                                Lit ''/'', Str (PInt (int n)), Lit '')'']
                     else Text [Lit ''Missing: '', Str (PList missing)])\<rparr>)))))"

text \<open>
  The keyword evaluator serialises the whole output with \<^verbatim>\<open>json.dumps\<close>, which
  is a parameter of the model.
\<close>

fun mentioned :: "string \<Rightarrow> bool \<Rightarrow> pyval list \<Rightarrow> exn + pyval list" where
  "mentioned output_text want [] = Inr []"
| "mentioned output_text want (kw # kws) =
     and_then (py_lower kw) (\<lambda>l.
     and_then (mentioned output_text want kws) (\<lambda>rest.
       Inr (if sublist l output_text = want then kw # rest else rest)))"

definition keyword_coverage_evaluator ::
  "(dict \<Rightarrow> string) \<Rightarrow> run \<Rightarrow> dict \<Rightarrow> exn + EvalResult" where
  "keyword_coverage_evaluator json_dumps run example_outputs =
     (let output = or_empty (outputs run);
          should_mention = dict_get example_outputs ''should_mention'' (PList [])
      in if \<not> truthy should_mention then
           Inr \<lparr>key = ''keyword_coverage'', score = PFloat 1,
                comment = Text [Lit ''No keywords to check'']\<rparr>
         else
           let output_text = map lower_char (json_dumps output) in
           and_then (py_iter should_mention) (\<lambda>kws.
           and_then (mentioned output_text True kws) (\<lambda>found.
           and_then (mentioned output_text False kws) (\<lambda>missing.
           and_then (py_len should_mention) (\<lambda>n.
           and_then (py_truediv (PInt (int (length found))) (PInt (int n))) (\<lambda>score.
             Inr \<lparr>key = ''keyword_coverage'', score = PFloat score,
                  comment =
                    (if score = 1
                     then Text [Lit ''All keywords found ('', Str (PInt (int (length found))),
                                Lit ''/'', Str (PInt (int n)), Lit '')'']
                     else Text [Lit ''Missing: '', Str (PList missing)])\<rparr>))))))"

definition report_length_evaluator :: "run \<Rightarrow> dict \<Rightarrow> exn + EvalResult" where
  "report_length_evaluator run example_outputs =
     (let output = or_empty (outputs run);
          response = main_text (PStr []) output;
          min_len = dict_get example_outputs ''min_report_length'' (PInt 0)
      in if \<not> truthy min_len then
           Inr \<lparr>key = ''report_length'', score = PFloat 1,
                comment = Text [Lit ''No minimum length defined'']\<rparr>
         else
           and_then (py_len response) (\<lambda>actual.
           and_then (py_truediv (PInt (int actual)) min_len) (\<lambda>q.
           let score = min 1 q in
             Inr \<lparr>key = ''report_length'', score = PFloat score,
                  comment =
                    (if score < 1
                     then Text [Lit ''Too short: '', Str (PInt (int actual)), Lit '' chars < '',
                                Str min_len, Lit '' minimum'']
                     else Text [Lit ''Length OK: '', Str (PInt (int actual)), Lit '' chars''])\<rparr>)))"

definition graceful_error_evaluator :: "run \<Rightarrow> dict \<Rightarrow> exn + EvalResult" where
  "graceful_error_evaluator run example_outputs =
     (let should_handle = dict_get example_outputs ''should_handle_gracefully'' (PBool False)
      in if \<not> truthy should_handle then
           Inr \<lparr>key = ''graceful_error'', score = PFloat 1,
                comment = Text [Lit ''Not an error case'']\<rparr>
         else
           case error run of
             Some (c # cs) \<Rightarrow>
               Inr \<lparr>key = ''graceful_error'', score = PFloat 0,
                    comment = Text [Lit ''Agent crashed: '', Lit (c # cs)]\<rparr>
           | _ \<Rightarrow>
               let output = or_empty (outputs run);
                   has_output = truthy (main_text PNone output)
               in if has_output then
                    Inr \<lparr>key = ''graceful_error'', score = PFloat 1,
                         comment = Text [Lit ''Handled gracefully with output'']\<rparr>
                  else
                    Inr \<lparr>key = ''graceful_error'', score = PFloat (1 / 2),
                         comment = Text [Lit ''No crash but no output either'']\<rparr>)"

section \<open>Tier 1: performance evaluators\<close>

definition latency_evaluator :: "run \<Rightarrow> dict \<Rightarrow> exn + EvalResult" where
  "latency_evaluator run example_outputs =
     (let max_latency = dict_get example_outputs ''max_latency_seconds'' (PInt 30)
      in case (start_time run, end_time run) of
           (Some started, Some ended) \<Rightarrow>
             let latency = ended - started in
             and_then (py_truediv (PFloat latency) max_latency) (\<lambda>q.
             let score = max 0 (1 - q) in
               Inr \<lparr>key = ''latency_seconds'', score = PFloat score,
                    comment = Text [Fixed 0 2 latency, Lit ''s (threshold: '',
                                    Str max_latency, Lit ''s)'']\<rparr>)
         | _ \<Rightarrow>
             Inr \<lparr>key = ''latency_seconds'', score = PFloat (1 / 2),
                  comment = Text [Lit ''No timing data available'']\<rparr>)"

definition token_efficiency_evaluator :: "run \<Rightarrow> dict \<Rightarrow> exn + EvalResult" where
  "token_efficiency_evaluator run example_outputs =
     (let max_tokens = dict_get example_outputs ''max_tokens'' (PInt 10000);
          extra' = or_empty (extra run);
          token_usage = dict_get extra' ''token_usage'' (PDict [])
      in and_then (attr_get token_usage ''total_tokens'' (PInt 0)) (\<lambda>total_tokens.
         if \<not> truthy total_tokens then
           Inr \<lparr>key = ''token_efficiency'', score = PFloat (1 / 2),
                comment = Text [Lit ''No token data available'']\<rparr>
         else
           and_then (py_truediv total_tokens max_tokens) (\<lambda>q.
           let score = max 0 (1 - q) in
             Inr \<lparr>key = ''token_efficiency'', score = PFloat score,
                  comment = Text [Str total_tokens, Lit '' tokens (threshold: '',
                                  Str max_tokens, Lit '')'']\<rparr>)))"

section \<open>Tier 2: judge-backed evaluators\<close>

text \<open>
  The judge is outside the repository. \<open>invoke\<close> stands for building the client,
  sending the prompt and reading the reply's \<^verbatim>\<open>content\<close>; \<open>json_loads\<close> stands for
  \<^verbatim>\<open>json.loads\<close>. Either may raise. A judge-backed evaluator returns its result
  together with the list of prompts it sent to the judge.
\<close>

type_synonym judge = "ftext \<Rightarrow> exn + string"
type_synonym parser = "string \<Rightarrow> exn + pyval"

text \<open>\<^verbatim>\<open>v[k]\<close> for a string key \<open>k\<close>.\<close>

fun py_getitem :: "pyval \<Rightarrow> string \<Rightarrow> exn + pyval" where
  "py_getitem (PDict d) k = (case map_of d k of Some v \<Rightarrow> Inr v | None \<Rightarrow> Inl (KeyError k))"
| "py_getitem _ k = Inl TypeError"

text \<open>The \<^verbatim>\<open>try ... except Exception as e\<close> block shared by the three evaluators.\<close>

definition judge_error :: "string \<Rightarrow> exn \<Rightarrow> EvalResult" where
  "judge_error name e =
     \<lparr>key = name, score = PFloat (1 / 2), comment = Text [Lit ''Judge error: '', ErrStr e]\<rparr>"

definition or_judge_error :: "string \<Rightarrow> exn + EvalResult \<Rightarrow> exn + EvalResult" where
  "or_judge_error name body =
     (case body of Inr r \<Rightarrow> Inr r | Inl e \<Rightarrow> Inr (judge_error name e))"

definition quality_prompt :: "pyval \<Rightarrow> ftext" where
  "quality_prompt excerpt =
     [Lit ''Evaluate this output on a scale of 1-5.\<newline>\<newline>Output to evaluate:\<newline>'',
      Str excerpt,
      Lit (''\<newline>\<newline>Rubric:\<newline>'' @
           ''- 5: Excellent - comprehensive, accurate, well-structured\<newline>'' @
           ''- 4: Good - mostly complete, minor issues\<newline>'' @
           ''- 3: Adequate - basic but acceptable\<newline>'' @
           ''- 2: Poor - significant issues\<newline>'' @
           ''- 1: Failing - incorrect or unusable\<newline>\<newline>'' @
           ''Return JSON: {\"score\": 1-5, \"reasoning\": \"brief explanation\"}\<newline>'')]"

definition quality_evaluator ::
  "judge \<Rightarrow> parser \<Rightarrow> run \<Rightarrow> dict \<Rightarrow> (exn + EvalResult) \<times> ftext list" where
  "quality_evaluator invoke json_loads run example_outputs =
     (let output = or_empty (outputs run);
          response = main_text (PStr []) output
      in if \<not> truthy response then
           (Inr \<lparr>key = ''quality'', score = PFloat 0,
                 comment = Text [Lit ''No output to evaluate'']\<rparr>, [])
         else
           case py_slice_to 3000 response of
             Inl e \<Rightarrow> (Inl e, [])
           | Inr excerpt \<Rightarrow>
               let judge_prompt = quality_prompt excerpt in
               (or_judge_error ''quality''
                  (and_then (invoke judge_prompt) (\<lambda>content.
                   and_then (json_loads content) (\<lambda>parsed.
                   and_then (py_getitem parsed ''score'') (\<lambda>s.
                   and_then (py_truediv s (PFloat 5)) (\<lambda>q.
                   and_then (attr_get parsed ''reasoning'' (PStr [])) (\<lambda>reasoning.
                     Inr \<lparr>key = ''quality'', score = PFloat q,
                          comment = Obj reasoning\<rparr>)))))),
                [judge_prompt]))"

definition relevance_prompt :: "fpart \<Rightarrow> pyval \<Rightarrow> ftext" where
  "relevance_prompt query excerpt =
     [Lit ''Is this response relevant to the query?\<newline>\<newline>Query: '', query,
      Lit ''\<newline>Response: '', Str excerpt,
      Lit (''\<newline>\<newline>Score 1-5:\<newline>'' @
           ''- 5: Directly addresses the query\<newline>'' @
           ''- 3: Partially relevant\<newline>'' @
           ''- 1: Off-topic or irrelevant\<newline>\<newline>'' @
           ''Return JSON: {\"score\": 1-5, \"reasoning\": \"brief explanation\"}\<newline>'')]"

text \<open>
  \<^verbatim>\<open>inputs.get("query", "") or inputs.get("target", "") or str(inputs)[:500]\<close>, as
  it is printed in the prompt.
\<close>

definition query_of :: "dict \<Rightarrow> fpart" where
  "query_of inputs' =
     (let q1 = dict_get inputs' ''query'' (PStr []);
          q2 = dict_get inputs' ''target'' (PStr [])
      in if truthy q1 then Str q1 else if truthy q2 then Str q2
         else StrTake 500 (PDict inputs'))"

definition relevance_evaluator ::
  "judge \<Rightarrow> parser \<Rightarrow> run \<Rightarrow> dict \<Rightarrow> (exn + EvalResult) \<times> ftext list" where
  "relevance_evaluator invoke json_loads run example_outputs =
     (let inputs' = or_empty (inputs run);
          output = or_empty (outputs run);
          query = query_of inputs';
          response = main_text (PStr []) output
      in if \<not> truthy response then
           (Inr \<lparr>key = ''relevance'', score = PFloat 0,
                 comment = Text [Lit ''No output to evaluate'']\<rparr>, [])
         else
           case py_slice_to 2000 response of
             Inl e \<Rightarrow> (Inl e, [])
           | Inr excerpt \<Rightarrow>
               let judge_prompt = relevance_prompt query excerpt in
               (or_judge_error ''relevance''
                  (and_then (invoke judge_prompt) (\<lambda>content.
                   and_then (json_loads content) (\<lambda>parsed.
                   and_then (py_getitem parsed ''score'') (\<lambda>s.
                   and_then (py_truediv s (PFloat 5)) (\<lambda>q.
                   and_then (attr_get parsed ''reasoning'' (PStr [])) (\<lambda>reasoning.
                     Inr \<lparr>key = ''relevance'', score = PFloat q,
                          comment = Obj reasoning\<rparr>)))))),
                [judge_prompt]))"

definition consistency_prompt :: "pyval \<Rightarrow> pyval \<Rightarrow> pyval \<Rightarrow> ftext" where
  "consistency_prompt target company excerpt =
     [Lit (''Analyze this research report for input-data consistency.\<newline>\<newline>'' @
           ''USER INPUT:\<newline>- Target: ''), Str target,
      Lit ''\<newline>- Company claimed: '', Str company,
      Lit ''\<newline>\<newline>REPORT:\<newline>'', Str excerpt,
      Lit (''\<newline>\<newline>QUESTIONS:\<newline>'' @
           ''1. Does the report confirm the person actually works at \"''), Str company,
      Lit (''\"?\<newline>'' @
           ''2. If the source data shows a DIFFERENT company, did the agent:\<newline>'' @
           ''   a) Explicitly flag the mismatch? (GOOD)\<newline>'' @
           ''   b) Silently reconcile by finding tangential connections? (BAD)\<newline>'' @
           ''   c) Ignore the mismatch entirely? (BAD)\<newline>\<newline>'' @
           ''SCORING:\<newline>'' @
           ''- 1.0: Data matches OR agent explicitly flagged mismatch\<newline>'' @
           ''- 0.5: Minor discrepancy, agent partially addressed\<newline>'' @
           ''- 0.0: Major mismatch silently reconciled (hallucination risk)\<newline>\<newline>'' @
           ''Return JSON: {\"score\": 0.0-1.0, \"mismatch_found\": true/false, '' @
           ''\"reasoning\": \"explanation\"}\<newline>'')]"

text \<open>
  \<^verbatim>\<open>inputs.get("linkedin_url", "") or inputs.get("target", "")\<close> and
  \<^verbatim>\<open>inputs.get("company_name", "") or inputs.get("company", "")\<close>.
\<close>

definition target_of :: "dict \<Rightarrow> pyval" where
  "target_of inputs' =
     py_or (dict_get inputs' ''linkedin_url'' (PStr [])) (dict_get inputs' ''target'' (PStr []))"

definition company_of :: "dict \<Rightarrow> pyval" where
  "company_of inputs' =
     py_or (dict_get inputs' ''company_name'' (PStr [])) (dict_get inputs' ''company'' (PStr []))"

definition input_data_consistency_evaluator ::
  "judge \<Rightarrow> parser \<Rightarrow> run \<Rightarrow> dict \<Rightarrow> (exn + EvalResult) \<times> ftext list" where
  "input_data_consistency_evaluator invoke json_loads run example_outputs =
     (let inputs' = or_empty (inputs run);
          output = or_empty (outputs run);
          target = target_of inputs';
          company = company_of inputs';
          report = main_text (PStr []) output
      in if \<not> truthy report \<or> \<not> truthy company then
           (Inr \<lparr>key = ''input_data_consistency'', score = PFloat 1,
                 comment = Text [Lit ''No company/report to verify'']\<rparr>, [])
         else
           case py_slice_to 3000 report of
             Inl e \<Rightarrow> (Inl e, [])
           | Inr excerpt \<Rightarrow>
               let judge_prompt = consistency_prompt target company excerpt in
               (or_judge_error ''input_data_consistency''
                  (and_then (invoke judge_prompt) (\<lambda>content.
                   and_then (json_loads content) (\<lambda>result.
                   and_then (attr_get result ''score'' (PFloat (1 / 2))) (\<lambda>s.
                   and_then (attr_get result ''mismatch_found'' (PStr ''unknown'')) (\<lambda>mismatch.
                   and_then (attr_get result ''reasoning'' (PStr [])) (\<lambda>reasoning.
                     Inr \<lparr>key = ''input_data_consistency'', score = s,
                          comment = Text [Lit ''Mismatch: '', Str mismatch, Lit '' - '',
                                          Str reasoning]\<rparr>)))))),
                [judge_prompt]))"

section \<open>Tier 3: human review\<close>

definition needs_human_review :: "run \<Rightarrow> dict \<Rightarrow> exn + EvalResult" where
  "needs_human_review run example_outputs =
     (let output = or_empty (outputs run);
          response = main_text (PStr []) output
      in and_then (py_len response) (\<lambda>n.
         and_then (if n < 200 then Inr True
                   else and_then (py_lower response) (\<lambda>low.
                          Inr (sublist ''error'' low \<or> sublist ''sorry'' low \<or>
                               sublist ''unable to'' low \<or> error run \<noteq> None)))
           (\<lambda>needs_review.
             Inr \<lparr>key = ''needs_human_review'',
                  score = PFloat (if needs_review then 0 else 1),
                  comment = Text [Lit (if needs_review then ''Flagged for human review''
                                       else ''Auto-approved'')]\<rparr>)))"

section \<open>Evaluator collections\<close>

text \<open>
  The collections hold the evaluators under one type: each takes the external
  collaborators (JSON serialiser, judge, JSON parser), the run and the
  expectation record, and returns its result or the exception it raises.
\<close>

record env =
  dumps_fn :: "dict \<Rightarrow> string"
  judge_fn :: judge
  loads_fn :: parser

type_synonym evaluator = "env \<Rightarrow> run \<Rightarrow> dict \<Rightarrow> exn + EvalResult"

definition AUTOMATED_EVALUATORS :: "evaluator list" where
  "AUTOMATED_EVALUATORS =
     [\<lambda>E. schema_evaluator,
      \<lambda>E. keyword_coverage_evaluator (dumps_fn E),
      \<lambda>E. report_length_evaluator,
      \<lambda>E. graceful_error_evaluator]"

definition PERFORMANCE_EVALUATORS :: "evaluator list" where
  "PERFORMANCE_EVALUATORS =
     [\<lambda>E. latency_evaluator,
      \<lambda>E. token_efficiency_evaluator]"

definition LLM_JUDGE_EVALUATORS :: "evaluator list" where
  "LLM_JUDGE_EVALUATORS =
     [\<lambda>E r x. fst (quality_evaluator (judge_fn E) (loads_fn E) r x),
      \<lambda>E r x. fst (relevance_evaluator (judge_fn E) (loads_fn E) r x),
      \<lambda>E r x. fst (input_data_consistency_evaluator (judge_fn E) (loads_fn E) r x)]"

definition ALL_EVALUATORS :: "evaluator list" where
  "ALL_EVALUATORS =
     AUTOMATED_EVALUATORS @ PERFORMANCE_EVALUATORS @ LLM_JUDGE_EVALUATORS @
     [\<lambda>E. needs_human_review]"

section \<open>Experiment comparison\<close>

text \<open>
  \<^verbatim>\<open>templates/compare.py\<close>. An Aggregation maps an experiment name to its metric
  averages; both levels are dictionaries in insertion order, which the
  renderers iterate over. Two dictionaries are equal in Python when they hold
  the same keys with the same values, in whatever order.
\<close>

type_synonym metric_avgs = "(string \<times> rat) list"
type_synonym aggregation = "(string \<times> metric_avgs) list"


text \<open>\<^verbatim>\<open>stats.get("avg", 0)\<close>.\<close>

definition stats_avg :: "stats \<Rightarrow> rat" where
  "stats_avg st = (case map_of st ''avg'' of Some v \<Rightarrow> v | None \<Rightarrow> 0)"

text \<open>\<^verbatim>\<open>metrics and key not in metrics\<close>: the key is filtered out.\<close>

definition filtered_out :: "string list option \<Rightarrow> string \<Rightarrow> bool" where
  "filtered_out metrics k =
     (case metrics of None \<Rightarrow> False | Some ms \<Rightarrow> ms \<noteq> [] \<and> k \<notin> set ms)"

text \<open>
  \<^verbatim>\<open>if key not in exp_metrics: exp_metrics[key] = []\<close> followed by
  \<^verbatim>\<open>exp_metrics[key].append(v)\<close>: a new key goes to the end, an old one keeps
  its place.
\<close>

definition append_val ::
  "string \<Rightarrow> rat \<Rightarrow> (string \<times> rat list) list \<Rightarrow> (string \<times> rat list) list" where
  "append_val k v exp_metrics =
     AList.update k ((case map_of exp_metrics k of None \<Rightarrow> [] | Some vs \<Rightarrow> vs) @ [v])
       exp_metrics"

text \<open>The loop over \<^verbatim>\<open>run.feedback_stats.items()\<close>.\<close>

fun collect_stats ::
  "string list option \<Rightarrow> (string \<times> stats) list \<Rightarrow> (string \<times> rat list) list \<Rightarrow>
   (string \<times> rat list) list" where
  "collect_stats metrics [] exp_metrics = exp_metrics"
| "collect_stats metrics ((k, st) # rest) exp_metrics =
     (if filtered_out metrics k then collect_stats metrics rest exp_metrics
      else collect_stats metrics rest (append_val k (stats_avg st) exp_metrics))"

text \<open>The loop over the runs of one experiment.\<close>

fun aggregate_runs ::
  "string list option \<Rightarrow> run list \<Rightarrow> (string \<times> rat list) list \<Rightarrow>
   (string \<times> rat list) list" where
  "aggregate_runs metrics [] exp_metrics = exp_metrics"
| "aggregate_runs metrics (r # rs) exp_metrics =
     aggregate_runs metrics rs
       (case feedback_stats r of
          None \<Rightarrow> exp_metrics
        | Some fs \<Rightarrow> if fs \<noteq> [] then collect_stats metrics fs exp_metrics else exp_metrics)"

text \<open>\<^verbatim>\<open>{key: sum(vals) / len(vals) if vals else 0 for key, vals in exp_metrics.items()}\<close>.\<close>

definition mean :: "rat list \<Rightarrow> rat" where
  "mean vals = (if vals \<noteq> [] then sum_list vals / of_nat (length vals) else 0)"

definition averages :: "(string \<times> rat list) list \<Rightarrow> metric_avgs" where
  "averages exp_metrics =
     fold (\<lambda>(k, vals). AList.update k (mean vals)) exp_metrics []"

text \<open>
  \<open>list_runs\<close> stands for \<^verbatim>\<open>client.list_runs(project_name=exp_name, is_root=True)\<close>;
  it may raise. The comparison returns what it printed and its result.
\<close>

definition no_runs_warning :: "string \<Rightarrow> string" where
  "no_runs_warning exp_name = ''Warning: No runs found for '' @ exp_name"

fun compare_loop ::
  "(string \<Rightarrow> exn + run list) \<Rightarrow> string list option \<Rightarrow> string list \<Rightarrow>
   string list \<times> aggregation \<Rightarrow> string list \<times> (exn + aggregation)" where
  "compare_loop list_runs metrics [] (printed, comparison) = (printed, Inr comparison)"
| "compare_loop list_runs metrics (exp_name # rest) (printed, comparison) =
     (case list_runs exp_name of
        Inl e \<Rightarrow> (printed, Inl e)
      | Inr experiments \<Rightarrow>
          if experiments = [] then
            compare_loop list_runs metrics rest
              (printed @ [no_runs_warning exp_name], comparison)
          else
            compare_loop list_runs metrics rest
              (printed,
               AList.update exp_name (averages (aggregate_runs metrics experiments []))
                 comparison))"

definition compare_experiments ::
  "(string \<Rightarrow> exn + run list) \<Rightarrow> string list \<Rightarrow> string list option \<Rightarrow>
   string list \<times> (exn + aggregation)" where
  "compare_experiments list_runs experiment_names metrics =
     compare_loop list_runs metrics experiment_names ([], [])"

section \<open>Renderers\<close>

definition ljust :: "nat \<Rightarrow> string \<Rightarrow> string" where
  "ljust n s = s @ replicate (n - length s) CHR '' ''"

fun join :: "string \<Rightarrow> string list \<Rightarrow> string" where
  "join sep [] = []"
| "join sep [x] = x"
| "join sep (x # y # ys) = x @ sep @ join sep (y # ys)"

text \<open>The sorted union of the metric keys of all experiments.\<close>

definition sorted_metrics :: "aggregation \<Rightarrow> string list" where
  "sorted_metrics comparison =
     sort (remdups (concat (map (\<lambda>(name, exp_metrics). map fst exp_metrics) comparison)))"

text \<open>\<^verbatim>\<open>exp_metrics.get(metric, 0)\<close> and \<^verbatim>\<open>comparison[exp_name].get(metric, 0)\<close>.\<close>

definition avg_get :: "metric_avgs \<Rightarrow> string \<Rightarrow> rat" where
  "avg_get exp_metrics metric =
     (case map_of exp_metrics metric of Some v \<Rightarrow> v | None \<Rightarrow> 0)"

definition metric_of :: "aggregation \<Rightarrow> string \<Rightarrow> string \<Rightarrow> exn + rat" where
  "metric_of comparison exp_name metric =
     (case map_of comparison exp_name of
        None \<Rightarrow> Inl (KeyError exp_name)
      | Some exp_metrics \<Rightarrow> Inr (avg_get exp_metrics metric))"

fun metric_values :: "aggregation \<Rightarrow> string list \<Rightarrow> string \<Rightarrow> exn + rat list" where
  "metric_values comparison [] metric = Inr []"
| "metric_values comparison (exp_name # names) metric =
     and_then (metric_of comparison exp_name metric) (\<lambda>val.
     and_then (metric_values comparison names metric) (\<lambda>vals. Inr (val # vals)))"

text \<open>\<^verbatim>\<open>xs.index(x)\<close> and \<^verbatim>\<open>xs[i]\<close>.\<close>

fun py_index :: "'a \<Rightarrow> 'a list \<Rightarrow> exn + nat" where
  "py_index x [] = Inl ValueError"
| "py_index x (y # ys) =
     (if x = y then Inr 0 else and_then (py_index x ys) (\<lambda>i. Inr (Suc i)))"

definition py_nth :: "'a list \<Rightarrow> nat \<Rightarrow> exn + 'a" where
  "py_nth xs i = (if i < length xs then Inr (xs ! i) else Inl IndexError)"

subsection \<open>The tabular renderer\<close>

text \<open>The name printed on the \<^verbatim>\<open>-> Best:\<close> line under a row, if there is one.\<close>

definition best_of :: "string list \<Rightarrow> rat list \<Rightarrow> exn + string option" where
  "best_of exp_names vals =
     (if vals \<noteq> [] \<and> Max (set vals) \<noteq> Min (set vals) then
        and_then (py_index (Max (set vals)) vals) (\<lambda>winner_idx.
        and_then (py_nth exp_names winner_idx) (\<lambda>name. Inr (Some name)))
      else Inr None)"

definition metric_lines :: "aggregation \<Rightarrow> string list \<Rightarrow> string \<Rightarrow> exn + ftext list" where
  "metric_lines comparison exp_names metric =
     and_then (metric_values comparison exp_names metric) (\<lambda>vals.
     let row = Lit (ljust 25 metric @ '' | '') #
               concat (map (\<lambda>val. [Fixed 15 3 val, Lit '' | '']) vals) in
     and_then (best_of exp_names vals) (\<lambda>best.
       Inr (case best of
              None \<Rightarrow> [row]
            | Some name \<Rightarrow> [row, [Lit (''  -> Best: '' @ name)]])))"

fun print_rows :: "aggregation \<Rightarrow> string list \<Rightarrow> string list \<Rightarrow> exn + ftext list" where
  "print_rows comparison exp_names [] = Inr []"
| "print_rows comparison exp_names (metric # rest) =
     and_then (metric_lines comparison exp_names metric) (\<lambda>ls.
     and_then (print_rows comparison exp_names rest) (\<lambda>more. Inr (ls @ more)))"

definition print_comparison :: "aggregation \<Rightarrow> exn + ftext list" where
  "print_comparison comparison =
     (if comparison = [] then Inr [[Lit ''No comparison data available'']]
      else
        let exp_names = map fst comparison;
            header = ljust 25 ''Metric'' @ '' | '' @ join '' | '' (map (ljust 15) exp_names)
        in and_then (print_rows comparison exp_names (sorted_metrics comparison)) (\<lambda>rows.
             Inr ([Lit header] # [Lit (replicate (length header) CHR ''-'')] # rows)))"

subsection \<open>The document renderer\<close>

text \<open>
  One summary row: each value is appended to \<^verbatim>\<open>values\<close> and its cell is bold
  when \<^verbatim>\<open>val == max(values)\<close> at that moment.
\<close>

fun report_cells ::
  "aggregation \<Rightarrow> string \<Rightarrow> rat list \<Rightarrow> string list \<Rightarrow> exn + (bool \<times> rat) list" where
  "report_cells comparison metric seen [] = Inr []"
| "report_cells comparison metric seen (exp_name # names) =
     and_then (metric_of comparison exp_name metric) (\<lambda>val.
     let seen' = seen @ [val] in
     and_then (report_cells comparison metric seen' names) (\<lambda>cells.
       Inr ((seen' \<noteq> [] \<and> val = Max (set seen'), val) # cells)))"

definition cell_text :: "bool \<times> rat \<Rightarrow> ftext" where
  "cell_text c =
     (if fst c then [Lit '' **'', Fixed 0 3 (snd c), Lit ''** |'']
      else [Lit '' '', Fixed 0 3 (snd c), Lit '' |''])"

definition report_row :: "aggregation \<Rightarrow> string \<Rightarrow> exn + ftext" where
  "report_row comparison metric =
     and_then (report_cells comparison metric [] (map fst comparison)) (\<lambda>cells.
       Inr (Lit (''| '' @ metric @ '' |'') # concat (map cell_text cells)))"

fun report_rows :: "aggregation \<Rightarrow> string list \<Rightarrow> exn + ftext list" where
  "report_rows comparison [] = Inr []"
| "report_rows comparison (metric # rest) =
     and_then (report_row comparison metric) (\<lambda>row.
     and_then (report_rows comparison rest) (\<lambda>more. Inr (row # more)))"

text \<open>\<^verbatim>\<open>{exp: sum(metrics.values()) for exp, metrics in comparison.items()}\<close>.\<close>

definition totals_of :: "aggregation \<Rightarrow> (string \<times> rat) list" where
  "totals_of comparison =
     fold (\<lambda>(exp, exp_metrics). AList.update exp (sum_list (map snd exp_metrics)))
       comparison []"

text \<open>
  \<^verbatim>\<open>max(totals, key=totals.get)\<close>: the first key, in the dictionary's order, whose
  value no later one exceeds.
\<close>

fun max_pair :: "string \<times> rat \<Rightarrow> (string \<times> rat) list \<Rightarrow> string \<times> rat" where
  "max_pair best [] = best"
| "max_pair best (p # ps) = max_pair (if snd best < snd p then p else best) ps"

definition py_max_key :: "(string \<times> rat) list \<Rightarrow> exn + string" where
  "py_max_key totals =
     (case totals of [] \<Rightarrow> Inl ValueError | p # ps \<Rightarrow> Inr (fst (max_pair p ps)))"

definition recommendation :: "string \<Rightarrow> ftext" where
  "recommendation winner = [Lit (''- **Overall Best**: '' @ winner @ '' (highest total score)'')]"

text \<open>
  The report is the list of the items joined by newlines. The effects are the
  file written and the line printed when \<^verbatim>\<open>output_file\<close> is given; a failure of
  the file system is outside the model.
\<close>

datatype effect = WriteFile string "ftext list" | Print string

definition generate_report ::
  "aggregation \<Rightarrow> string option \<Rightarrow> exn + (ftext list \<times> effect list)" where
  "generate_report comparison output_file =
     (let report = [[Lit ''# Experiment Comparison Report\<newline>'']] in
      if comparison = [] then
        Inr (report @ [[Lit ''No comparison data available.\<newline>'']], [])
      else
        let report = report @
              [[Lit ''## Summary\<newline>''],
               [Lit (''| Metric | '' @ join '' | '' (map fst comparison) @ '' |'')],
               [Lit (''|'' @ concat (replicate (length comparison + 1) ''---|''))]]
        in and_then (report_rows comparison (sorted_metrics comparison)) (\<lambda>rows.
           let report = report @ rows @ [[Lit ''\<newline>## Recommendations\<newline>'']] in
           and_then (py_max_key (totals_of comparison)) (\<lambda>winner.
           let report = report @ [recommendation winner] in
             Inr (report,
                  case output_file of
                    Some (c # cs) \<Rightarrow>
                      [WriteFile (c # cs) report, Print (''Report saved to: '' @ c # cs)]
                  | _ \<Rightarrow> []))))"

section \<open>What a run contributes to a metric\<close>

text \<open>
  The values that one run adds to the list of the metric \<open>k\<close>: the \<^verbatim>\<open>avg\<close> of each
  entry of its feedback statistics stored under \<open>k\<close>, unless \<open>k\<close> is filtered out;
  nothing when the run has no feedback statistics. The value reported for a
  metric is the mean of the contributions of all runs, and the metric is absent
  when there is none.
\<close>

definition stat_vals :: "string list option \<Rightarrow> string \<Rightarrow> (string \<times> stats) list \<Rightarrow> rat list" where
  "stat_vals metrics k fs =
     map (\<lambda>p. stats_avg (snd p)) (filter (\<lambda>p. fst p = k \<and> \<not> filtered_out metrics k) fs)"

definition contribution :: "string list option \<Rightarrow> string \<Rightarrow> run \<Rightarrow> rat list" where
  "contribution metrics k r =
     (case feedback_stats r of None \<Rightarrow> [] | Some fs \<Rightarrow> stat_vals metrics k fs)"

definition metric_mean :: "string list option \<Rightarrow> string \<Rightarrow> run list \<Rightarrow> rat option" where
  "metric_mean metrics k rs =
     (let vals = concat (map (contribution metrics k) rs)
      in if vals = [] then None else Some (mean vals))"

text \<open>Appending values to the list stored under a key, if there are any.\<close>

definition extend_vals :: "rat list option \<Rightarrow> rat list \<Rightarrow> rat list option" where
  "extend_vals x ys =
     (if ys = [] then x else Some ((case x of None \<Rightarrow> [] | Some vs \<Rightarrow> vs) @ ys))"

section \<open>The cells a summary row marks\<close>

text \<open>
  Reading a row of values from left to right, a value is marked when none of
  the values before it (nor of those already \<open>seen\<close>) is greater.
\<close>

fun running_marks :: "rat list \<Rightarrow> rat list \<Rightarrow> (bool \<times> rat) list" where
  "running_marks seen [] = []"
| "running_marks seen (v # vs) = ((\<forall>u\<in>set seen. u \<le> v), v) # running_marks (seen @ [v]) vs"

section \<open>Well-typed inputs and documented scales\<close>

text \<open>
  The inputs the evaluators are written for. The expectation record is
  well-typed when \<^verbatim>\<open>expected_fields\<close> and \<^verbatim>\<open>should_mention\<close> are lists of strings,
  \<^verbatim>\<open>min_report_length\<close> is a number and the two thresholds are numbers other
  than zero, each if present; the run is well-typed when its main-text output
  fields are strings and \<^verbatim>\<open>token_usage\<close> is a dictionary whose \<^verbatim>\<open>total_tokens\<close> is
  a number, each if present.
\<close>

definition field_ok :: "(pyval \<Rightarrow> bool) \<Rightarrow> dict \<Rightarrow> string \<Rightarrow> bool" where
  "field_ok P d k = (case map_of d k of None \<Rightarrow> True | Some v \<Rightarrow> P v)"

fun is_str :: "pyval \<Rightarrow> bool" where
  "is_str (PStr s) = True"
| "is_str _ = False"

fun is_str_list :: "pyval \<Rightarrow> bool" where
  "is_str_list (PList xs) = list_all is_str xs"
| "is_str_list _ = False"

definition is_number :: "pyval \<Rightarrow> bool" where
  "is_number v = (num_of v \<noteq> None)"

definition nonzero_number :: "pyval \<Rightarrow> bool" where
  "nonzero_number v = (case num_of v of Some x \<Rightarrow> x \<noteq> 0 | None \<Rightarrow> False)"

fun token_usage_ok :: "pyval \<Rightarrow> bool" where
  "token_usage_ok (PDict d) = field_ok is_number d ''total_tokens''"
| "token_usage_ok _ = False"

definition well_typed :: "run \<Rightarrow> dict \<Rightarrow> bool" where
  "well_typed run example_outputs \<longleftrightarrow>
     field_ok is_str_list example_outputs ''expected_fields'' \<and>
     field_ok is_str_list example_outputs ''should_mention'' \<and>
     field_ok is_number example_outputs ''min_report_length'' \<and>
     field_ok nonzero_number example_outputs ''max_latency_seconds'' \<and>
     field_ok nonzero_number example_outputs ''max_tokens'' \<and>
     field_ok is_str (or_empty (outputs run)) ''final_report'' \<and>
     field_ok is_str (or_empty (outputs run)) ''output'' \<and>
     field_ok is_str (or_empty (outputs run)) ''response'' \<and>
     field_ok token_usage_ok (or_empty (extra run)) ''token_usage''"

text \<open>A score in the closed interval from 0 to 1.\<close>

definition unit_score :: "pyval \<Rightarrow> bool" where
  "unit_score v = (case num_of v of Some x \<Rightarrow> 0 \<le> x \<and> x \<le> 1 | None \<Rightarrow> False)"

text \<open>
  What the \<^verbatim>\<open>try\<close> block of a judge-backed evaluator reads from the judge for a
  prompt: the reply's \<^verbatim>\<open>score\<close> over 5 (quality, relevance), or the reply's
  \<^verbatim>\<open>score\<close> with the default 0.5 (consistency); or the exception raised by the
  call, by the parser or by reading the score.
\<close>

definition judge_score_5 :: "judge \<Rightarrow> parser \<Rightarrow> ftext \<Rightarrow> exn + rat" where
  "judge_score_5 invoke json_loads judge_prompt =
     and_then (invoke judge_prompt) (\<lambda>content.
     and_then (json_loads content) (\<lambda>parsed.
     and_then (py_getitem parsed ''score'') (\<lambda>s. py_truediv s (PFloat 5))))"

definition judge_score_raw :: "judge \<Rightarrow> parser \<Rightarrow> ftext \<Rightarrow> exn + pyval" where
  "judge_score_raw invoke json_loads judge_prompt =
     and_then (invoke judge_prompt) (\<lambda>content.
     and_then (json_loads content) (\<lambda>result. attr_get result ''score'' (PFloat (1 / 2))))"

text \<open>
  The inputs on which the scores stay within the documented scale: lengths and
  thresholds are not negative resp. positive where they are numbers, the run
  does not end before it starts, and the judge's score is between 0 and 5 for
  the quality and relevance prompts and a number between 0 and 1 for the
  consistency prompt.
\<close>

definition not_negative :: "pyval \<Rightarrow> bool" where
  "not_negative v = (case num_of v of Some x \<Rightarrow> 0 \<le> x | None \<Rightarrow> True)"

definition positive_number :: "pyval \<Rightarrow> bool" where
  "positive_number v = (case num_of v of Some x \<Rightarrow> 0 < x | None \<Rightarrow> True)"

fun token_count_ok :: "pyval \<Rightarrow> bool" where
  "token_count_ok (PDict d) = field_ok not_negative d ''total_tokens''"
| "token_count_ok _ = True"

definition in_scale :: "env \<Rightarrow> run \<Rightarrow> dict \<Rightarrow> bool" where
  "in_scale E run example_outputs \<longleftrightarrow>
     field_ok not_negative example_outputs ''min_report_length'' \<and>
     field_ok positive_number example_outputs ''max_latency_seconds'' \<and>
     (case (start_time run, end_time run) of
        (Some started, Some ended) \<Rightarrow> started \<le> ended
      | _ \<Rightarrow> True) \<and>
     field_ok positive_number example_outputs ''max_tokens'' \<and>
     field_ok token_count_ok (or_empty (extra run)) ''token_usage'' \<and>
     (\<forall>excerpt q.
        judge_score_5 (judge_fn E) (loads_fn E) (quality_prompt excerpt) = Inr q \<longrightarrow>
        0 \<le> q \<and> q \<le> 1) \<and>
     (\<forall>query excerpt q.
        judge_score_5 (judge_fn E) (loads_fn E) (relevance_prompt query excerpt) = Inr q \<longrightarrow>
        0 \<le> q \<and> q \<le> 1) \<and>
     (\<forall>target company excerpt s.
        judge_score_raw (judge_fn E) (loads_fn E)
          (consistency_prompt target company excerpt) = Inr s \<longrightarrow>
        unit_score s)"

section \<open>Example inputs\<close>

text \<open>A run with every field absent, from which the examples are built.\<close>

definition blank_run :: run where
  "blank_run =
     \<lparr>outputs = None, error = None, start_time = None, end_time = None, extra = None,
      inputs = None, feedback_stats = None\<rparr>"

text \<open>The two experiments of the spec's scenario, and three with a tie at the top.\<close>

definition example_AB :: aggregation where
  "example_AB =
     [(''A'', [(''accuracy'', 9 / 10), (''latency'', 8 / 10)]),
      (''B'', [(''accuracy'', 95 / 100), (''latency'', 4 / 10)])]"

definition example_tie :: aggregation where
  "example_tie =
     [(''A'', [(''accuracy'', 9 / 10)]),
      (''B'', [(''accuracy'', 9 / 10)]),
      (''C'', [(''accuracy'', 1 / 2)])]"

text \<open>
  A run-storage backend with one experiment of three runs (the second without
  feedback statistics, the third without the metric \<^verbatim>\<open>relevance\<close>) and no runs
  for any other name; and the same backend returning the runs in another order.
\<close>

definition example_backend :: "string \<Rightarrow> exn + run list" where
  "example_backend name =
     (if name = ''exp_v1'' then
        Inr [blank_run\<lparr>feedback_stats :=
                Some [(''quality'', [(''n'', 1), (''avg'', 8 / 10)]),
                      (''relevance'', [(''n'', 1), (''avg'', 6 / 10)])]\<rparr>,
             blank_run,
             blank_run\<lparr>feedback_stats := Some [(''quality'', [(''n'', 1), (''avg'', 4 / 10)])]\<rparr>]
      else Inr [])"


text \<open>
  A run with a report and a claimed company, a run without outputs for the same
  inputs, a judge that cannot be reached, and a judge that answers with a score
  of 7 (with the parse of that answer).
\<close>

definition report_run :: run where
  "report_run =
     blank_run\<lparr>outputs := Some [(''final_report'', PStr ''Acme grew 10% in 2024.'')],
               inputs := Some [(''query'', PStr ''How did Acme do?''),
                               (''company'', PStr ''Acme'')]\<rparr>"



definition judge_says_7 :: judge where
  "judge_says_7 judge_prompt = Inr ''{\"score\": 7}''"

definition parse_7 :: parser where
  "parse_7 content =
     (if content = ''{\"score\": 7}'' then Inr (PDict [(''score'', PInt 7)])
      else Inl (External ''Expecting value''))"

text \<open>
  A well-typed expectation record and run with every signal present, and
  stand-ins for the external collaborators: a serialiser, and a judge whose
  reply parses to a score of 1.
\<close>

definition full_example :: dict where
  "full_example =
     [(''expected_fields'', PList [PStr ''final_report'', PStr ''sources'']),
      (''should_mention'', PList [PStr ''Acme'', PStr ''revenue'']),
      (''min_report_length'', PInt 50),
      (''should_handle_gracefully'', PBool True),
      (''max_latency_seconds'', PInt 20),
      (''max_tokens'', PInt 5000)]"

definition full_run :: run where
  "full_run =
     report_run\<lparr>start_time := Some 100, end_time := Some 105,
                extra := Some [(''token_usage'', PDict [(''total_tokens'', PInt 1200)])]\<rparr>"

definition fair_env :: env where
  "fair_env =
     \<lparr>dumps_fn = (\<lambda>d. ''{\"final_report\": \"Acme grew 10% in 2024.\"}''),
      judge_fn = (\<lambda>judge_prompt. Inr ''{\"score\": 1, \"reasoning\": \"ok\"}''),
      loads_fn = (\<lambda>content. Inr (PDict [(''score'', PInt 1), (''reasoning'', PStr ''ok'')]))\<rparr>"

section \<open>Basic facts\<close>

lemma and_then_Inr [simp]: "and_then (Inr x) f = f x"
  by (simp add: and_then_def)

lemma and_then_Inl [simp]: "and_then (Inl e) f = Inl e"
  by (simp add: and_then_def)

lemma and_then_eq_Inr: "and_then m f = Inr y \<longleftrightarrow> (\<exists>x. m = Inr x \<and> f x = Inr y)"
  by (cases m) (simp_all add: and_then_def)

lemma and_then_eq_Inl:
  "and_then m f = Inl e \<longleftrightarrow> m = Inl e \<or> (\<exists>x. m = Inr x \<and> f x = Inl e)"
  by (cases m) (simp_all add: and_then_def)

section \<open>The graceful-degradation evaluator\<close>

text \<open>
  Claim C9, as amended. The graceful-degradation evaluator never raises and
  returns 1.0 when the expectation record does not flag the case (the flag
  \<^verbatim>\<open>should_handle_gracefully\<close> is absent or falsy); otherwise 0.0 when
  \<^verbatim>\<open>run.error\<close> is a non-empty string, whatever the outputs are; otherwise 1.0
  when one of the main-text fields of the outputs is truthy; otherwise 0.5. An
  error that is present but is the empty string is treated like an absent one.
\<close>

theorem graceful_error_scores:
  "\<exists>r. graceful_error_evaluator run example_outputs = Inr r \<and>
     score r = PFloat
       (if \<not> truthy (dict_get example_outputs ''should_handle_gracefully'' (PBool False)) then 1
        else if error run \<noteq> None \<and> error run \<noteq> Some [] then 0
        else if truthy (main_text PNone (or_empty (outputs run))) then 1
        else 1 / 2)"
  by (auto simp: graceful_error_evaluator_def Let_def split: option.splits list.splits)

text \<open>
  The claim as stated fails for a run whose error is set to the empty string:
  the case is flagged and \<^verbatim>\<open>run.error\<close> is not \<^verbatim>\<open>None\<close>, yet the score is 1.0.
\<close>

theorem graceful_error_empty_error_counterexample:
  "truthy (dict_get [(''should_handle_gracefully'', PBool True)]
             ''should_handle_gracefully'' (PBool False)) \<and>
   error (blank_run\<lparr>outputs := Some [(''output'', PStr ''partial answer'')],
                    error := Some []\<rparr>) \<noteq> None \<and>
   graceful_error_evaluator
     (blank_run\<lparr>outputs := Some [(''output'', PStr ''partial answer'')], error := Some []\<rparr>)
     [(''should_handle_gracefully'', PBool True)] =
   Inr \<lparr>key = ''graceful_error'', score = PFloat 1,
        comment = Text [Lit ''Handled gracefully with output'']\<rparr>"
  by (simp add: graceful_error_evaluator_def blank_run_def dict_get_def main_text_def
      py_or_def or_empty_def)

section \<open>The judge-backed evaluators\<close>

lemma or_judge_error_Inl: "or_judge_error name (Inl e) = Inr (judge_error name e)"
  by (simp add: or_judge_error_def)

lemma or_judge_error_Inr: "or_judge_error name (Inr r) = Inr r"
  by (simp add: or_judge_error_def)

lemma py_getitem_Inr: "py_getitem v k = Inr x \<Longrightarrow> \<exists>d. v = PDict d"
  by (cases v) simp_all

lemma score_chain_fails:
  assumes "judge_score_5 invoke json_loads p = Inl e"
  shows "and_then (invoke p) (\<lambda>content.
         and_then (json_loads content) (\<lambda>parsed.
         and_then (py_getitem parsed ''score'') (\<lambda>s.
         and_then (py_truediv s (PFloat 5)) (\<lambda>q.
         and_then (attr_get parsed ''reasoning'' (PStr [])) (\<lambda>reasoning.
           Inr (R q reasoning)))))) = Inl e"
  using assms unfolding judge_score_5_def and_then_eq_Inl by fastforce

lemma score_chain_succeeds:
  assumes "judge_score_5 invoke json_loads p = Inr q"
  shows "\<exists>reasoning.
         and_then (invoke p) (\<lambda>content.
         and_then (json_loads content) (\<lambda>parsed.
         and_then (py_getitem parsed ''score'') (\<lambda>s.
         and_then (py_truediv s (PFloat 5)) (\<lambda>q.
         and_then (attr_get parsed ''reasoning'' (PStr [])) (\<lambda>reasoning.
           Inr (R q reasoning)))))) = Inr (R q reasoning)"
proof -
  from assms obtain content parsed s where
    c: "invoke p = Inr content" "json_loads content = Inr parsed"
       "py_getitem parsed ''score'' = Inr s" "py_truediv s (PFloat 5) = Inr q"
    unfolding judge_score_5_def and_then_eq_Inr by blast
  from c(3) obtain d where "parsed = PDict d" by (auto dest: py_getitem_Inr)
  then have "attr_get parsed ''reasoning'' (PStr []) = Inr (dict_get d ''reasoning'' (PStr []))"
    by simp
  with c show ?thesis by auto
qed

lemma raw_chain_fails:
  assumes "judge_score_raw invoke json_loads p = Inl e"
  shows "and_then (invoke p) (\<lambda>content.
         and_then (json_loads content) (\<lambda>result.
         and_then (attr_get result ''score'' (PFloat (1 / 2))) (\<lambda>s.
         and_then (attr_get result ''mismatch_found'' (PStr ''unknown'')) (\<lambda>mismatch.
         and_then (attr_get result ''reasoning'' (PStr [])) (\<lambda>reasoning.
           Inr (R s mismatch reasoning)))))) = Inl e"
  using assms unfolding judge_score_raw_def and_then_eq_Inl by fastforce

lemma attr_get_Inr: "attr_get v k d = Inr x \<Longrightarrow> \<exists>m. v = PDict m"
  by (cases v) simp_all

lemma raw_chain_succeeds:
  assumes "judge_score_raw invoke json_loads p = Inr s"
  shows "\<exists>mismatch reasoning.
         and_then (invoke p) (\<lambda>content.
         and_then (json_loads content) (\<lambda>result.
         and_then (attr_get result ''score'' (PFloat (1 / 2))) (\<lambda>s.
         and_then (attr_get result ''mismatch_found'' (PStr ''unknown'')) (\<lambda>mismatch.
         and_then (attr_get result ''reasoning'' (PStr [])) (\<lambda>reasoning.
           Inr (R s mismatch reasoning)))))) = Inr (R s mismatch reasoning)"
proof -
  from assms obtain content result where
    c: "invoke p = Inr content" "json_loads content = Inr result"
       "attr_get result ''score'' (PFloat (1 / 2)) = Inr s"
    unfolding judge_score_raw_def and_then_eq_Inr by blast
  from c(3) obtain d where d: "result = PDict d" by (auto dest: attr_get_Inr)
  with c show ?thesis by auto
qed

lemma quality_no_output:
  "\<not> truthy (main_text (PStr []) (or_empty (outputs run))) \<Longrightarrow>
   quality_evaluator invoke json_loads run example_outputs =
     (Inr \<lparr>key = ''quality'', score = PFloat 0,
           comment = Text [Lit ''No output to evaluate'']\<rparr>, [])"
  by (simp add: quality_evaluator_def Let_def)

lemma relevance_no_output:
  "\<not> truthy (main_text (PStr []) (or_empty (outputs run))) \<Longrightarrow>
   relevance_evaluator invoke json_loads run example_outputs =
     (Inr \<lparr>key = ''relevance'', score = PFloat 0,
           comment = Text [Lit ''No output to evaluate'']\<rparr>, [])"
  by (simp add: relevance_evaluator_def Let_def)

text \<open>The company read by the consistency evaluator, and the query of the relevance one.\<close>

lemma quality_with_text:
  assumes "main_text (PStr []) (or_empty (outputs run)) = PStr s" and "s \<noteq> []"
  shows "\<exists>body. quality_evaluator invoke json_loads run example_outputs =
           (or_judge_error ''quality'' body, [quality_prompt (PStr (take 3000 s))]) \<and>
         (\<forall>e. judge_score_5 invoke json_loads (quality_prompt (PStr (take 3000 s))) = Inl e \<longrightarrow>
              body = Inl e) \<and>
         (\<forall>q. judge_score_5 invoke json_loads (quality_prompt (PStr (take 3000 s))) = Inr q \<longrightarrow>
              (\<exists>c. body = Inr \<lparr>key = ''quality'', score = PFloat q, comment = c\<rparr>))"
proof -
  let ?p = "quality_prompt (PStr (take 3000 s))"
  let ?R = "\<lambda>q reasoning. \<lparr>key = ''quality'', score = PFloat q, comment = Obj reasoning\<rparr>"
  let ?body = "and_then (invoke ?p) (\<lambda>content.
         and_then (json_loads content) (\<lambda>parsed.
         and_then (py_getitem parsed ''score'') (\<lambda>s.
         and_then (py_truediv s (PFloat 5)) (\<lambda>q.
         and_then (attr_get parsed ''reasoning'' (PStr [])) (\<lambda>reasoning.
           Inr (?R q reasoning))))))"
  have "quality_evaluator invoke json_loads run example_outputs =
      (or_judge_error ''quality'' ?body, [?p])"
    using assms by (simp add: quality_evaluator_def Let_def)
  moreover have "\<forall>e. judge_score_5 invoke json_loads ?p = Inl e \<longrightarrow> ?body = Inl e"
    using score_chain_fails[of invoke json_loads ?p _ ?R] by blast
  moreover have "\<forall>q. judge_score_5 invoke json_loads ?p = Inr q \<longrightarrow>
      (\<exists>c. ?body = Inr \<lparr>key = ''quality'', score = PFloat q, comment = c\<rparr>)"
    using score_chain_succeeds[of invoke json_loads ?p _ ?R] by blast
  ultimately show ?thesis by blast
qed


lemma relevance_with_text:
  assumes "main_text (PStr []) (or_empty (outputs run)) = PStr s" and "s \<noteq> []"
  shows "\<exists>body. relevance_evaluator invoke json_loads run example_outputs =
           (or_judge_error ''relevance'' body,
            [relevance_prompt (query_of (or_empty (inputs run))) (PStr (take 2000 s))]) \<and>
         (\<forall>e. judge_score_5 invoke json_loads
                (relevance_prompt (query_of (or_empty (inputs run))) (PStr (take 2000 s))) = Inl e \<longrightarrow>
              body = Inl e) \<and>
         (\<forall>q. judge_score_5 invoke json_loads
                (relevance_prompt (query_of (or_empty (inputs run))) (PStr (take 2000 s))) = Inr q \<longrightarrow>
              (\<exists>c. body = Inr \<lparr>key = ''relevance'', score = PFloat q, comment = c\<rparr>))"
proof -
  let ?p = "relevance_prompt (query_of (or_empty (inputs run))) (PStr (take 2000 s))"
  let ?R = "\<lambda>q reasoning. \<lparr>key = ''relevance'', score = PFloat q, comment = Obj reasoning\<rparr>"
  let ?body = "and_then (invoke ?p) (\<lambda>content.
         and_then (json_loads content) (\<lambda>parsed.
         and_then (py_getitem parsed ''score'') (\<lambda>s.
         and_then (py_truediv s (PFloat 5)) (\<lambda>q.
         and_then (attr_get parsed ''reasoning'' (PStr [])) (\<lambda>reasoning.
           Inr (?R q reasoning))))))"
  have "relevance_evaluator invoke json_loads run example_outputs =
      (or_judge_error ''relevance'' ?body, [?p])"
    using assms by (simp add: relevance_evaluator_def Let_def)
  moreover have "\<forall>e. judge_score_5 invoke json_loads ?p = Inl e \<longrightarrow> ?body = Inl e"
    using score_chain_fails[of invoke json_loads ?p _ ?R] by blast
  moreover have "\<forall>q. judge_score_5 invoke json_loads ?p = Inr q \<longrightarrow>
      (\<exists>c. ?body = Inr \<lparr>key = ''relevance'', score = PFloat q, comment = c\<rparr>)"
    using score_chain_succeeds[of invoke json_loads ?p _ ?R] by blast
  ultimately show ?thesis by blast
qed

lemma consistency_nothing_to_verify:
  "\<not> truthy (main_text (PStr []) (or_empty (outputs run))) \<or>
   \<not> truthy (company_of (or_empty (inputs run))) \<Longrightarrow>
   input_data_consistency_evaluator invoke json_loads run example_outputs =
     (Inr \<lparr>key = ''input_data_consistency'', score = PFloat 1,
           comment = Text [Lit ''No company/report to verify'']\<rparr>, [])"
  by (auto simp: input_data_consistency_evaluator_def Let_def)

lemma consistency_with_text:
  assumes "main_text (PStr []) (or_empty (outputs run)) = PStr s" and "s \<noteq> []"
    and "truthy (company_of (or_empty (inputs run)))"
  shows "\<exists>body. input_data_consistency_evaluator invoke json_loads run example_outputs =
           (or_judge_error ''input_data_consistency'' body,
            [consistency_prompt (target_of (or_empty (inputs run)))
               (company_of (or_empty (inputs run))) (PStr (take 3000 s))]) \<and>
         (\<forall>e. judge_score_raw invoke json_loads
                (consistency_prompt (target_of (or_empty (inputs run)))
                   (company_of (or_empty (inputs run))) (PStr (take 3000 s))) = Inl e \<longrightarrow>
              body = Inl e) \<and>
         (\<forall>v. judge_score_raw invoke json_loads
                (consistency_prompt (target_of (or_empty (inputs run)))
                   (company_of (or_empty (inputs run))) (PStr (take 3000 s))) = Inr v \<longrightarrow>
              (\<exists>m r. body = Inr \<lparr>key = ''input_data_consistency'', score = v,
                          comment = Text [Lit ''Mismatch: '', Str m, Lit '' - '', Str r]\<rparr>))"
proof -
  let ?p = "consistency_prompt (target_of (or_empty (inputs run)))
               (company_of (or_empty (inputs run))) (PStr (take 3000 s))"
  let ?R = "\<lambda>v m r. \<lparr>key = ''input_data_consistency'', score = v,
                comment = Text [Lit ''Mismatch: '', Str m, Lit '' - '', Str r]\<rparr>"
  let ?body = "and_then (invoke ?p) (\<lambda>content.
         and_then (json_loads content) (\<lambda>result.
         and_then (attr_get result ''score'' (PFloat (1 / 2))) (\<lambda>s.
         and_then (attr_get result ''mismatch_found'' (PStr ''unknown'')) (\<lambda>mismatch.
         and_then (attr_get result ''reasoning'' (PStr [])) (\<lambda>reasoning.
           Inr (?R s mismatch reasoning))))))"
  have "input_data_consistency_evaluator invoke json_loads run example_outputs =
      (or_judge_error ''input_data_consistency'' ?body, [?p])"
    using assms by (simp add: input_data_consistency_evaluator_def Let_def)
  moreover have "\<forall>e. judge_score_raw invoke json_loads ?p = Inl e \<longrightarrow> ?body = Inl e"
    using raw_chain_fails[of invoke json_loads ?p _ ?R] by blast
  moreover have "\<forall>v. judge_score_raw invoke json_loads ?p = Inr v \<longrightarrow>
      (\<exists>m r. ?body = Inr (?R v m r))"
    using raw_chain_succeeds[of invoke json_loads ?p _ ?R] by blast
  ultimately show ?thesis by blast
qed




section \<open>Totality and score range of the evaluators\<close>

lemma field_ok_dict_get: "field_ok P d k \<Longrightarrow> P dflt \<Longrightarrow> P (dict_get d k dflt)"
  by (simp add: field_ok_def dict_get_def split: option.splits)

lemma is_str_iff: "is_str v \<longleftrightarrow> (\<exists>s. v = PStr s)"
  by (cases v) simp_all

lemma main_text_is_str:
  assumes "field_ok is_str out ''final_report''" "field_ok is_str out ''output''"
    "field_ok is_str out ''response''"
  shows "\<exists>s. main_text (PStr []) out = PStr s"
proof -
  have "is_str (dict_get out ''final_report'' (PStr []))"
    "is_str (dict_get out ''output'' (PStr []))"
    "is_str (dict_get out ''response'' (PStr []))"
    using assms by (simp_all add: field_ok_dict_get)
  then show ?thesis by (auto simp: main_text_def py_or_def is_str_iff)
qed

lemma truthy_number_nonzero: "truthy v \<Longrightarrow> num_of v = Some x \<Longrightarrow> x \<noteq> 0"
  by (cases v) (auto split: if_splits)

lemma py_truediv_ok:
  "num_of a = Some x \<Longrightarrow> num_of b = Some y \<Longrightarrow> y \<noteq> 0 \<Longrightarrow> py_truediv a b = Inr (x / y)"
  by (simp add: py_truediv_def)

lemma py_truediv_Inr:
  "py_truediv a b = Inr q \<Longrightarrow> \<exists>x y. num_of a = Some x \<and> num_of b = Some y \<and> y \<noteq> 0 \<and> q = x / y"
  by (auto simp: py_truediv_def split: option.splits if_splits)

lemma present_fields_strs:
  "list_all is_str fs \<Longrightarrow> \<exists>ps. present_fields out fs = Inr ps"
proof (induction fs)
  case Nil
  then show ?case by simp
next
  case (Cons f fs)
  then obtain s ps where "f = PStr s" "present_fields out fs = Inr ps"
    by (auto simp: is_str_iff)
  then show ?case by (simp add: get_by_val_def)
qed

lemma present_fields_length:
  "present_fields out fs = Inr ps \<Longrightarrow> length ps \<le> length fs"
proof (induction fs arbitrary: ps)
  case Nil
  then show ?case by simp
next
  case (Cons f fs)
  from Cons.prems obtain v rest where
    "get_by_val out f = Inr v" "present_fields out fs = Inr rest"
    "ps = (if v \<noteq> PNone then f # rest else rest)"
    by (auto simp: and_then_eq_Inr)
  with Cons.IH[of rest] show ?case by (auto split: if_splits)
qed

lemma mentioned_strs:
  "list_all is_str kws \<Longrightarrow> \<exists>ps. mentioned text want kws = Inr ps"
proof (induction kws)
  case Nil
  then show ?case by simp
next
  case (Cons kw kws)
  then obtain s ps where "kw = PStr s" "mentioned text want kws = Inr ps"
    by (auto simp: is_str_iff)
  then show ?case by simp
qed

lemma mentioned_length:
  "mentioned text want kws = Inr ps \<Longrightarrow> length ps \<le> length kws"
proof (induction kws arbitrary: ps)
  case Nil
  then show ?case by simp
next
  case (Cons kw kws)
  from Cons.prems obtain l rest where
    "py_lower kw = Inr l" "mentioned text want kws = Inr rest"
    "ps = (if sublist l text = want then kw # rest else rest)"
    by (auto simp: and_then_eq_Inr)
  with Cons.IH[of rest] show ?case by (auto split: if_splits)
qed

lemma py_iter_len: "py_iter v = Inr xs \<Longrightarrow> py_len v = Inr (length xs)"
  by (cases v) auto

lemma truthy_iter_nonempty: "truthy v \<Longrightarrow> py_iter v = Inr xs \<Longrightarrow> xs \<noteq> []"
  by (cases v) auto

lemma is_str_list_iter: "is_str_list v \<Longrightarrow> \<exists>xs. py_iter v = Inr xs \<and> list_all is_str xs"
  by (cases v) auto

lemma ratio_unit:
  fixes a b :: nat
  assumes "a \<le> b" "b \<noteq> 0"
  shows "0 \<le> (of_int (int a) :: rat) / of_int (int b)" "(of_int (int a) :: rat) / of_int (int b) \<le> 1"
  using assms by (simp_all add: divide_le_eq_1)

lemma unit_PFloat: "unit_score (PFloat x) \<longleftrightarrow> 0 \<le> x \<and> x \<le> 1"
  by (simp add: unit_score_def)

lemma schema_total:
  assumes "field_ok is_str_list example_outputs ''expected_fields''"
  shows "\<exists>r. schema_evaluator run example_outputs = Inr r"
proof -
  let ?expected = "dict_get example_outputs ''expected_fields'' (PList [])"
  have "is_str_list ?expected" using assms by (rule field_ok_dict_get) simp
  then obtain fs where fs: "py_iter ?expected = Inr fs" "list_all is_str fs"
    using is_str_list_iter by blast
  obtain ps where ps: "present_fields (or_empty (outputs run)) fs = Inr ps"
    using present_fields_strs[OF fs(2)] by blast
  have len: "py_len ?expected = Inr (length fs)" using fs(1) by (rule py_iter_len)
  show ?thesis
  proof (cases "truthy ?expected")
    case False
    then show ?thesis by (simp add: schema_evaluator_def Let_def)
  next
    case True
    then have "fs \<noteq> []" using fs(1) by (rule truthy_iter_nonempty)
    then have "py_truediv (PInt (int (length ps))) (PInt (int (length fs))) =
        Inr (of_int (int (length ps)) / of_int (int (length fs)))"
      by (intro py_truediv_ok) simp_all
    with True fs ps len show ?thesis by (simp add: schema_evaluator_def Let_def)
  qed
qed

lemma schema_unit:
  assumes "schema_evaluator run example_outputs = Inr r"
  shows "unit_score (score r)"
proof -
  let ?expected = "dict_get example_outputs ''expected_fields'' (PList [])"
  show ?thesis
  proof (cases "truthy ?expected")
    case False
    with assms show ?thesis by (auto simp: schema_evaluator_def Let_def unit_PFloat)
  next
    case True
    with assms obtain fs ps n q where
      c: "py_iter ?expected = Inr fs" "present_fields (or_empty (outputs run)) fs = Inr ps"
         "py_len ?expected = Inr n"
         "py_truediv (PInt (int (length ps))) (PInt (int n)) = Inr q" "score r = PFloat q"
      by (auto simp: schema_evaluator_def Let_def and_then_eq_Inr)
    have n: "n = length fs" using py_iter_len[OF c(1)] c(3) by simp
    have le: "length ps \<le> length fs" using c(2) by (rule present_fields_length)
    from py_truediv_Inr[OF c(4)] have q: "q = of_int (int (length ps)) / of_int (int n)"
      and nz: "n \<noteq> 0" by auto
    show ?thesis using ratio_unit[of "length ps" n] le n nz q c(5) by (simp add: unit_PFloat)
  qed
qed

lemma keyword_total:
  assumes "field_ok is_str_list example_outputs ''should_mention''"
  shows "\<exists>r. keyword_coverage_evaluator json_dumps run example_outputs = Inr r"
proof -
  let ?sm = "dict_get example_outputs ''should_mention'' (PList [])"
  let ?text = "map lower_char (json_dumps (or_empty (outputs run)))"
  have "is_str_list ?sm" using assms by (rule field_ok_dict_get) simp
  then obtain kws where kws: "py_iter ?sm = Inr kws" "list_all is_str kws"
    using is_str_list_iter by blast
  obtain found where found: "mentioned ?text True kws = Inr found"
    using mentioned_strs[OF kws(2)] by blast
  obtain missing where missing: "mentioned ?text False kws = Inr missing"
    using mentioned_strs[OF kws(2)] by blast
  have len: "py_len ?sm = Inr (length kws)" using kws(1) by (rule py_iter_len)
  show ?thesis
  proof (cases "truthy ?sm")
    case False
    then show ?thesis by (simp add: keyword_coverage_evaluator_def Let_def)
  next
    case True
    then have "kws \<noteq> []" using kws(1) by (rule truthy_iter_nonempty)
    then have "py_truediv (PInt (int (length found))) (PInt (int (length kws))) =
        Inr (of_int (int (length found)) / of_int (int (length kws)))"
      by (intro py_truediv_ok) simp_all
    with True kws found missing len show ?thesis
      by (simp add: keyword_coverage_evaluator_def Let_def)
  qed
qed

lemma keyword_unit:
  assumes "keyword_coverage_evaluator json_dumps run example_outputs = Inr r"
  shows "unit_score (score r)"
proof -
  let ?sm = "dict_get example_outputs ''should_mention'' (PList [])"
  let ?text = "map lower_char (json_dumps (or_empty (outputs run)))"
  show ?thesis
  proof (cases "truthy ?sm")
    case False
    with assms show ?thesis
      by (auto simp: keyword_coverage_evaluator_def Let_def unit_PFloat)
  next
    case True
    with assms obtain kws found n q where
      c: "py_iter ?sm = Inr kws" "mentioned ?text True kws = Inr found"
         "py_len ?sm = Inr n"
         "py_truediv (PInt (int (length found))) (PInt (int n)) = Inr q" "score r = PFloat q"
      by (auto simp: keyword_coverage_evaluator_def Let_def and_then_eq_Inr)
    have n: "n = length kws" using py_iter_len[OF c(1)] c(3) by simp
    have le: "length found \<le> length kws" using c(2) by (rule mentioned_length)
    from py_truediv_Inr[OF c(4)] have q: "q = of_int (int (length found)) / of_int (int n)"
      and nz: "n \<noteq> 0" by auto
    show ?thesis using ratio_unit[of "length found" n] le n nz q c(5)
      by (simp add: unit_PFloat)
  qed
qed

lemma length_total:
  assumes "field_ok is_number example_outputs ''min_report_length''"
    and "field_ok is_str (or_empty (outputs run)) ''final_report''"
    and "field_ok is_str (or_empty (outputs run)) ''output''"
    and "field_ok is_str (or_empty (outputs run)) ''response''"
  shows "\<exists>r. report_length_evaluator run example_outputs = Inr r"
proof -
  let ?min = "dict_get example_outputs ''min_report_length'' (PInt 0)"
  obtain s where s: "main_text (PStr []) (or_empty (outputs run)) = PStr s"
    using main_text_is_str[OF assms(2-4)] by blast
  have "is_number ?min" using assms(1) by (rule field_ok_dict_get) (simp add: is_number_def)
  then obtain x where x: "num_of ?min = Some x" by (auto simp: is_number_def)
  show ?thesis
  proof (cases "truthy ?min")
    case False
    then show ?thesis by (simp add: report_length_evaluator_def Let_def)
  next
    case True
    then have "x \<noteq> 0" using x by (rule truthy_number_nonzero)
    then have "py_truediv (PInt (int (length s))) ?min = Inr (of_int (int (length s)) / x)"
      using x by (intro py_truediv_ok) simp_all
    with True s show ?thesis by (simp add: report_length_evaluator_def Let_def)
  qed
qed

lemma length_unit:
  assumes "report_length_evaluator run example_outputs = Inr r"
    and "field_ok not_negative example_outputs ''min_report_length''"
  shows "unit_score (score r)"
proof -
  let ?min = "dict_get example_outputs ''min_report_length'' (PInt 0)"
  have nn: "not_negative ?min"
    using assms(2) by (rule field_ok_dict_get) (simp add: not_negative_def)
  show ?thesis
  proof (cases "truthy ?min")
    case False
    with assms(1) show ?thesis
      by (auto simp: report_length_evaluator_def Let_def unit_PFloat)
  next
    case True
    with assms(1) obtain actual q where
      c: "py_len (main_text (PStr []) (or_empty (outputs run))) = Inr actual"
         "py_truediv (PInt (int actual)) ?min = Inr q" "score r = PFloat (min 1 q)"
      by (auto simp: report_length_evaluator_def Let_def and_then_eq_Inr)
    from py_truediv_Inr[OF c(2)] obtain y where
      y: "num_of ?min = Some y" "y \<noteq> 0" "q = of_int (int actual) / y" by auto
    have "0 \<le> y" using nn y(1) by (simp add: not_negative_def)
    then have "0 \<le> q" using y by simp
    then show ?thesis using c(3) by (simp add: unit_PFloat)
  qed
qed

lemma graceful_total: "\<exists>r. graceful_error_evaluator run example_outputs = Inr r"
  by (auto simp: graceful_error_evaluator_def Let_def split: option.splits list.splits)

lemma graceful_unit:
  "graceful_error_evaluator run example_outputs = Inr r \<Longrightarrow> unit_score (score r)"
  by (auto simp: graceful_error_evaluator_def Let_def unit_PFloat
      split: option.splits list.splits if_splits)

lemma latency_total:
  assumes "field_ok nonzero_number example_outputs ''max_latency_seconds''"
  shows "\<exists>r. latency_evaluator run example_outputs = Inr r"
proof -
  let ?max = "dict_get example_outputs ''max_latency_seconds'' (PInt 30)"
  have "nonzero_number ?max"
    using assms by (rule field_ok_dict_get) (simp add: nonzero_number_def)
  then obtain y where y: "num_of ?max = Some y" "y \<noteq> 0"
    by (auto simp: nonzero_number_def split: option.splits)
  have "py_truediv (PFloat x) ?max = Inr (x / y)" for x
    using y by (intro py_truediv_ok) simp_all
  then show ?thesis
    by (auto simp: latency_evaluator_def Let_def split: option.splits)
qed

lemma latency_unit:
  assumes "latency_evaluator run example_outputs = Inr r"
    and "field_ok positive_number example_outputs ''max_latency_seconds''"
    and "case (start_time run, end_time run) of
           (Some started, Some ended) \<Rightarrow> started \<le> ended | _ \<Rightarrow> True"
  shows "unit_score (score r)"
proof -
  let ?max = "dict_get example_outputs ''max_latency_seconds'' (PInt 30)"
  have pos: "positive_number ?max"
    using assms(2) by (rule field_ok_dict_get) (simp add: positive_number_def)
  show ?thesis
  proof (cases "\<exists>s e. start_time run = Some s \<and> end_time run = Some e")
    case False
    with assms(1) show ?thesis
      by (auto simp: latency_evaluator_def Let_def unit_PFloat split: option.splits)
  next
    case True
    then obtain s e where se: "start_time run = Some s" "end_time run = Some e" by blast
    with assms(1) obtain q where
      c: "py_truediv (PFloat (e - s)) ?max = Inr q" "score r = PFloat (max 0 (1 - q))"
      by (auto simp: latency_evaluator_def Let_def and_then_eq_Inr)
    from py_truediv_Inr[OF c(1)] obtain y where
      y: "num_of ?max = Some y" "y \<noteq> 0" "q = (e - s) / y" by auto
    have "0 < y" using pos y(1) by (simp add: positive_number_def)
    moreover have "0 \<le> e - s" using assms(3) se by simp
    ultimately have "0 \<le> q" using y(3) by simp
    then show ?thesis using c(2) by (simp add: unit_PFloat)
  qed
qed

lemma token_total:
  assumes "field_ok nonzero_number example_outputs ''max_tokens''"
    and "field_ok token_usage_ok (or_empty (extra run)) ''token_usage''"
  shows "\<exists>r. token_efficiency_evaluator run example_outputs = Inr r"
proof -
  let ?max = "dict_get example_outputs ''max_tokens'' (PInt 10000)"
  let ?usage = "dict_get (or_empty (extra run)) ''token_usage'' (PDict [])"
  have "nonzero_number ?max"
    using assms(1) by (rule field_ok_dict_get) (simp add: nonzero_number_def)
  then obtain y where y: "num_of ?max = Some y" "y \<noteq> 0"
    by (auto simp: nonzero_number_def split: option.splits)
  have "token_usage_ok ?usage"
    using assms(2) by (rule field_ok_dict_get) (simp add: field_ok_def)
  then obtain d where d: "?usage = PDict d" "field_ok is_number d ''total_tokens''"
    by (cases ?usage) auto
  let ?total = "dict_get d ''total_tokens'' (PInt 0)"
  have "is_number ?total" using d(2) by (rule field_ok_dict_get) (simp add: is_number_def)
  then obtain x where x: "num_of ?total = Some x" by (auto simp: is_number_def)
  have div: "py_truediv ?total ?max = Inr (x / y)" using x y by (rule py_truediv_ok)
  have get: "attr_get ?usage ''total_tokens'' (PInt 0) = Inr ?total" by (simp add: d(1))
  show ?thesis
    unfolding token_efficiency_evaluator_def Let_def get and_then_Inr div
    by (cases "truthy ?total") simp_all
qed

lemma token_unit:
  assumes "token_efficiency_evaluator run example_outputs = Inr r"
    and "field_ok positive_number example_outputs ''max_tokens''"
    and "field_ok token_count_ok (or_empty (extra run)) ''token_usage''"
  shows "unit_score (score r)"
proof -
  let ?max = "dict_get example_outputs ''max_tokens'' (PInt 10000)"
  let ?usage = "dict_get (or_empty (extra run)) ''token_usage'' (PDict [])"
  have pos: "positive_number ?max"
    using assms(2) by (rule field_ok_dict_get) (simp add: positive_number_def)
  have ok: "token_count_ok ?usage"
    using assms(3) by (rule field_ok_dict_get) (simp add: field_ok_def)
  from assms(1) obtain total where
    t: "attr_get ?usage ''total_tokens'' (PInt 0) = Inr total"
    by (auto simp: token_efficiency_evaluator_def Let_def and_then_eq_Inr)
  then obtain d where d: "?usage = PDict d" by (auto dest: attr_get_Inr)
  with t have total: "total = dict_get d ''total_tokens'' (PInt 0)" by simp
  have "field_ok not_negative d ''total_tokens''" using ok d by simp
  then have nn: "not_negative total"
    unfolding total by (rule field_ok_dict_get) (simp add: not_negative_def)
  show ?thesis
  proof (cases "truthy total")
    case False
    with assms(1) t show ?thesis
      by (auto simp: token_efficiency_evaluator_def Let_def unit_PFloat)
  next
    case True
    with assms(1) t obtain q where
      c: "py_truediv total ?max = Inr q" "score r = PFloat (max 0 (1 - q))"
      by (auto simp: token_efficiency_evaluator_def Let_def and_then_eq_Inr)
    from py_truediv_Inr[OF c(1)] obtain x y where
      xy: "num_of total = Some x" "num_of ?max = Some y" "y \<noteq> 0" "q = x / y" by auto
    have "0 < y" using pos xy(2) by (simp add: positive_number_def)
    moreover have "0 \<le> x" using nn xy(1) by (simp add: not_negative_def)
    ultimately have "0 \<le> q" using xy(4) by simp
    then show ?thesis using c(2) by (simp add: unit_PFloat)
  qed
qed

lemma human_review_total:
  assumes "field_ok is_str (or_empty (outputs run)) ''final_report''"
    and "field_ok is_str (or_empty (outputs run)) ''output''"
    and "field_ok is_str (or_empty (outputs run)) ''response''"
  shows "\<exists>r. needs_human_review run example_outputs = Inr r"
proof -
  obtain s where "main_text (PStr []) (or_empty (outputs run)) = PStr s"
    using main_text_is_str[OF assms] by blast
  then show ?thesis by (simp add: needs_human_review_def Let_def)
qed

lemma human_review_unit:
  "needs_human_review run example_outputs = Inr r \<Longrightarrow> unit_score (score r)"
  by (auto simp: needs_human_review_def Let_def and_then_eq_Inr unit_PFloat)

lemma or_judge_error_total: "\<exists>r. or_judge_error name body = Inr r"
  by (cases body) (simp_all add: or_judge_error_def)

lemma quality_total:
  assumes "field_ok is_str (or_empty (outputs run)) ''final_report''"
    and "field_ok is_str (or_empty (outputs run)) ''output''"
    and "field_ok is_str (or_empty (outputs run)) ''response''"
  shows "\<exists>r. fst (quality_evaluator invoke json_loads run example_outputs) = Inr r"
proof -
  obtain s where s: "main_text (PStr []) (or_empty (outputs run)) = PStr s"
    using main_text_is_str[OF assms] by blast
  show ?thesis
  proof (cases "s = []")
    case True
    with s show ?thesis by (simp add: quality_no_output)
  next
    case False
    from quality_with_text[OF s False, of invoke json_loads example_outputs]
    show ?thesis using or_judge_error_total by (metis fst_conv)
  qed
qed

lemma relevance_total:
  assumes "field_ok is_str (or_empty (outputs run)) ''final_report''"
    and "field_ok is_str (or_empty (outputs run)) ''output''"
    and "field_ok is_str (or_empty (outputs run)) ''response''"
  shows "\<exists>r. fst (relevance_evaluator invoke json_loads run example_outputs) = Inr r"
proof -
  obtain s where s: "main_text (PStr []) (or_empty (outputs run)) = PStr s"
    using main_text_is_str[OF assms] by blast
  show ?thesis
  proof (cases "s = []")
    case True
    with s show ?thesis by (simp add: relevance_no_output)
  next
    case False
    from relevance_with_text[OF s False, of invoke json_loads example_outputs]
    show ?thesis using or_judge_error_total by (metis fst_conv)
  qed
qed

lemma consistency_total:
  assumes "field_ok is_str (or_empty (outputs run)) ''final_report''"
    and "field_ok is_str (or_empty (outputs run)) ''output''"
    and "field_ok is_str (or_empty (outputs run)) ''response''"
  shows "\<exists>r. fst (input_data_consistency_evaluator invoke json_loads run example_outputs) = Inr r"
proof -
  obtain s where s: "main_text (PStr []) (or_empty (outputs run)) = PStr s"
    using main_text_is_str[OF assms] by blast
  show ?thesis
  proof (cases "s = [] \<or> \<not> truthy (company_of (or_empty (inputs run)))")
    case True
    with s show ?thesis by (auto simp: consistency_nothing_to_verify)
  next
    case False
    then have "s \<noteq> []" "truthy (company_of (or_empty (inputs run)))" by auto
    from consistency_with_text[OF s this, of invoke json_loads example_outputs]
    show ?thesis using or_judge_error_total by (metis fst_conv)
  qed
qed

lemma judged_5_unit:
  assumes "or_judge_error name
      (and_then (invoke p) (\<lambda>content.
       and_then (json_loads content) (\<lambda>parsed.
       and_then (py_getitem parsed ''score'') (\<lambda>s.
       and_then (py_truediv s (PFloat 5)) (\<lambda>q.
       and_then (attr_get parsed ''reasoning'' (PStr [])) (\<lambda>reasoning.
         Inr \<lparr>key = name, score = PFloat q, comment = Obj reasoning\<rparr>)))))) = Inr r"
    and "\<forall>q. judge_score_5 invoke json_loads p = Inr q \<longrightarrow> 0 \<le> q \<and> q \<le> 1"
  shows "unit_score (score r)"
proof (cases "judge_score_5 invoke json_loads p")
  case (Inl e)
  from score_chain_fails[OF Inl,
      of "\<lambda>q reasoning. \<lparr>key = name, score = PFloat q, comment = Obj reasoning\<rparr>"] assms(1)
  have "r = judge_error name e" by (simp add: or_judge_error_Inl)
  then show ?thesis by (simp add: judge_error_def unit_PFloat)
next
  case (Inr q)
  from score_chain_succeeds[OF Inr,
      of "\<lambda>q reasoning. \<lparr>key = name, score = PFloat q, comment = Obj reasoning\<rparr>"] assms(1)
  have "score r = PFloat q" by (auto simp: or_judge_error_Inr)
  with assms(2) Inr show ?thesis by (simp add: unit_PFloat)
qed

lemma quality_unit:
  assumes "fst (quality_evaluator invoke json_loads run example_outputs) = Inr r"
    and "\<forall>excerpt q. judge_score_5 invoke json_loads (quality_prompt excerpt) = Inr q \<longrightarrow>
           0 \<le> q \<and> q \<le> 1"
  shows "unit_score (score r)"
proof (cases "truthy (main_text (PStr []) (or_empty (outputs run)))")
  case False
  with assms(1) show ?thesis by (auto simp: quality_no_output unit_PFloat)
next
  case True
  show ?thesis
  proof (cases "py_slice_to 3000 (main_text (PStr []) (or_empty (outputs run)))")
    case (Inl e)
    with True assms(1) show ?thesis by (simp add: quality_evaluator_def Let_def)
  next
    case (Inr excerpt)
    with True assms(1) have "or_judge_error ''quality''
      (and_then (invoke (quality_prompt excerpt)) (\<lambda>content.
       and_then (json_loads content) (\<lambda>parsed.
       and_then (py_getitem parsed ''score'') (\<lambda>s.
       and_then (py_truediv s (PFloat 5)) (\<lambda>q.
       and_then (attr_get parsed ''reasoning'' (PStr [])) (\<lambda>reasoning.
         Inr \<lparr>key = ''quality'', score = PFloat q, comment = Obj reasoning\<rparr>)))))) = Inr r"
      by (simp add: quality_evaluator_def Let_def)
    then show ?thesis by (rule judged_5_unit) (use assms(2) in blast)
  qed
qed

lemma relevance_unit:
  assumes "fst (relevance_evaluator invoke json_loads run example_outputs) = Inr r"
    and "\<forall>query excerpt q.
           judge_score_5 invoke json_loads (relevance_prompt query excerpt) = Inr q \<longrightarrow>
           0 \<le> q \<and> q \<le> 1"
  shows "unit_score (score r)"
proof (cases "truthy (main_text (PStr []) (or_empty (outputs run)))")
  case False
  with assms(1) show ?thesis by (auto simp: relevance_no_output unit_PFloat)
next
  case True
  show ?thesis
  proof (cases "py_slice_to 2000 (main_text (PStr []) (or_empty (outputs run)))")
    case (Inl e)
    with True assms(1) show ?thesis by (simp add: relevance_evaluator_def Let_def)
  next
    case (Inr excerpt)
    let ?p = "relevance_prompt (query_of (or_empty (inputs run))) excerpt"
    from Inr True assms(1) have "or_judge_error ''relevance''
      (and_then (invoke ?p) (\<lambda>content.
       and_then (json_loads content) (\<lambda>parsed.
       and_then (py_getitem parsed ''score'') (\<lambda>s.
       and_then (py_truediv s (PFloat 5)) (\<lambda>q.
       and_then (attr_get parsed ''reasoning'' (PStr [])) (\<lambda>reasoning.
         Inr \<lparr>key = ''relevance'', score = PFloat q, comment = Obj reasoning\<rparr>)))))) = Inr r"
      by (simp add: relevance_evaluator_def Let_def)
    then show ?thesis by (rule judged_5_unit) (use assms(2) in blast)
  qed
qed

lemma consistency_unit:
  assumes "fst (input_data_consistency_evaluator invoke json_loads run example_outputs) = Inr r"
    and "\<forall>target company excerpt s.
           judge_score_raw invoke json_loads (consistency_prompt target company excerpt) = Inr s \<longrightarrow>
           unit_score s"
  shows "unit_score (score r)"
proof (cases "\<not> truthy (main_text (PStr []) (or_empty (outputs run))) \<or>
              \<not> truthy (company_of (or_empty (inputs run)))")
  case True
  with assms(1) show ?thesis
    using consistency_nothing_to_verify[OF True, of invoke json_loads example_outputs]
    by (auto simp: unit_PFloat)
next
  case False
  show ?thesis
  proof (cases "py_slice_to 3000 (main_text (PStr []) (or_empty (outputs run)))")
    case (Inl e)
    with False assms(1) show ?thesis
      by (simp add: input_data_consistency_evaluator_def Let_def)
  next
    case (Inr excerpt)
    let ?p = "consistency_prompt (target_of (or_empty (inputs run)))
                (company_of (or_empty (inputs run))) excerpt"
    let ?R = "\<lambda>v m r. \<lparr>key = ''input_data_consistency'', score = v,
                comment = Text [Lit ''Mismatch: '', Str m, Lit '' - '', Str r]\<rparr>"
    let ?body = "and_then (invoke ?p) (\<lambda>content.
         and_then (json_loads content) (\<lambda>result.
         and_then (attr_get result ''score'' (PFloat (1 / 2))) (\<lambda>s.
         and_then (attr_get result ''mismatch_found'' (PStr ''unknown'')) (\<lambda>mismatch.
         and_then (attr_get result ''reasoning'' (PStr [])) (\<lambda>reasoning.
           Inr (?R s mismatch reasoning))))))"
    from Inr False assms(1) have b: "or_judge_error ''input_data_consistency'' ?body = Inr r"
      by (simp add: input_data_consistency_evaluator_def Let_def)
    show ?thesis
    proof (cases "judge_score_raw invoke json_loads ?p")
      case (Inl e)
      from raw_chain_fails[OF Inl, of ?R] b
      have "r = judge_error ''input_data_consistency'' e" by (simp add: or_judge_error_Inl)
      then show ?thesis by (simp add: judge_error_def unit_PFloat)
    next
      case (Inr v)
      from raw_chain_succeeds[OF Inr, of ?R] b
      have "score r = v" by (auto simp: or_judge_error_Inr)
      with assms(2) Inr show ?thesis by blast
    qed
  qed
qed

lemma all_evaluators_cases:
  assumes "ev \<in> set ALL_EVALUATORS"
  obtains
    "ev = (\<lambda>E. schema_evaluator)"
  | "ev = (\<lambda>E. keyword_coverage_evaluator (dumps_fn E))"
  | "ev = (\<lambda>E. report_length_evaluator)"
  | "ev = (\<lambda>E. graceful_error_evaluator)"
  | "ev = (\<lambda>E. latency_evaluator)"
  | "ev = (\<lambda>E. token_efficiency_evaluator)"
  | "ev = (\<lambda>E r x. fst (quality_evaluator (judge_fn E) (loads_fn E) r x))"
  | "ev = (\<lambda>E r x. fst (relevance_evaluator (judge_fn E) (loads_fn E) r x))"
  | "ev = (\<lambda>E r x. fst (input_data_consistency_evaluator (judge_fn E) (loads_fn E) r x))"
  | "ev = (\<lambda>E. needs_human_review)"
  using assms
  unfolding ALL_EVALUATORS_def AUTOMATED_EVALUATORS_def PERFORMANCE_EVALUATORS_def
    LLM_JUDGE_EVALUATORS_def
  by auto

lemma well_typed_total:
  assumes "well_typed run example_outputs" and "ev \<in> set ALL_EVALUATORS"
  shows "\<exists>r. ev E run example_outputs = Inr r"
  using assms(2)
proof (cases rule: all_evaluators_cases)
  case 1
  then show ?thesis using assms(1) by (simp add: well_typed_def schema_total)
next
  case 2
  then show ?thesis using assms(1) by (simp add: well_typed_def keyword_total)
next
  case 3
  then show ?thesis using assms(1) by (simp add: well_typed_def length_total)
next
  case 4
  then show ?thesis by (simp add: graceful_total)
next
  case 5
  then show ?thesis using assms(1) by (simp add: well_typed_def latency_total)
next
  case 6
  then show ?thesis using assms(1) by (simp add: well_typed_def token_total)
next
  case 7
  then show ?thesis using assms(1) by (simp add: well_typed_def quality_total)
next
  case 8
  then show ?thesis using assms(1) by (simp add: well_typed_def relevance_total)
next
  case 9
  then show ?thesis using assms(1) by (simp add: well_typed_def consistency_total)
next
  case 10
  then show ?thesis using assms(1) by (simp add: well_typed_def human_review_total)
qed

lemma in_scale_unit:
  assumes "in_scale E run example_outputs" and "ev \<in> set ALL_EVALUATORS"
    and "ev E run example_outputs = Inr r"
  shows "unit_score (score r)"
  using assms(2)
proof (cases rule: all_evaluators_cases)
  case 1
  then show ?thesis using assms(3) by (simp add: schema_unit)
next
  case 2
  then show ?thesis using assms(3) keyword_unit by simp
next
  case 3
  then show ?thesis using assms(1,3) by (simp add: in_scale_def length_unit)
next
  case 4
  then show ?thesis using assms(3) by (simp add: graceful_unit)
next
  case 5
  then show ?thesis using assms(1,3) latency_unit[of run example_outputs r]
    by (simp add: in_scale_def)
next
  case 6
  then show ?thesis using assms(1,3) by (simp add: in_scale_def token_unit)
next
  case 7
  then show ?thesis using assms(1,3)
      quality_unit[of "judge_fn E" "loads_fn E" run example_outputs r]
    by (simp add: in_scale_def)
next
  case 8
  then show ?thesis using assms(1,3)
      relevance_unit[of "judge_fn E" "loads_fn E" run example_outputs r]
    by (simp add: in_scale_def)
next
  case 9
  then show ?thesis using assms(1,3)
      consistency_unit[of "judge_fn E" "loads_fn E" run example_outputs r]
    by (simp add: in_scale_def)
next
  case 10
  then show ?thesis using assms(3) by (simp add: human_review_unit)
qed

lemma full_inputs_well_typed: "well_typed full_run full_example"
  by (simp add: well_typed_def field_ok_def full_run_def full_example_def report_run_def
      blank_run_def or_empty_def nonzero_number_def is_number_def)

lemma full_inputs_in_scale: "in_scale fair_env full_run full_example"
  by (simp add: in_scale_def field_ok_def full_run_def full_example_def report_run_def
      blank_run_def or_empty_def positive_number_def not_negative_def fair_env_def
      judge_score_5_def judge_score_raw_def py_truediv_def dict_get_def unit_score_def)




text \<open>
  Claim C2, as amended. Whenever an evaluator of \<^verbatim>\<open>ALL_EVALUATORS\<close> returns an
  EvalResult, its score is a number between 0 and 1, provided that the inputs
  are within the documented scales: \<^verbatim>\<open>min_report_length\<close> is not negative, the
  latency and token thresholds are positive, the run does not end before it
  starts, \<^verbatim>\<open>total_tokens\<close> is not negative, and the judge's score is between 0 and
  5 for the quality and relevance prompts and a number between 0 and 1 for the
  consistency prompt.
\<close>

theorem scores_in_unit_interval:
  assumes "in_scale E run example_outputs" and "ev \<in> set ALL_EVALUATORS"
    and "ev E run example_outputs = Inr r"
  shows "unit_score (score r)"
  using assms by (rule in_scale_unit)

theorem scores_in_unit_interval_witness:
  "in_scale fair_env full_run full_example \<and>
   list_all (\<lambda>ev. \<exists>r. ev fair_env full_run full_example = Inr r \<and> unit_score (score r))
     ALL_EVALUATORS"
proof -
  have "\<exists>r. ev fair_env full_run full_example = Inr r \<and> unit_score (score r)"
    if ev: "ev \<in> set ALL_EVALUATORS" for ev
  proof -
    obtain r where r: "ev fair_env full_run full_example = Inr r"
      using well_typed_total[OF full_inputs_well_typed ev] by blast
    from scores_in_unit_interval[OF full_inputs_in_scale ev r] r show ?thesis by blast
  qed
  then show ?thesis using full_inputs_in_scale by (simp add: list_all_iff)
qed

text \<open>
  The claim as stated fails: the judge's score is not clamped. A reply with the
  score 7 gives the quality score 1.4 and the consistency score 7.
\<close>

theorem judge_score_out_of_scale_counterexample:
  "fst (quality_evaluator judge_says_7 parse_7 report_run []) =
     Inr \<lparr>key = ''quality'', score = PFloat (7 / 5), comment = Obj (PStr [])\<rparr> \<and>
   \<not> unit_score (PFloat (7 / 5)) \<and>
   fst (input_data_consistency_evaluator judge_says_7 parse_7 report_run []) =
     Inr \<lparr>key = ''input_data_consistency'', score = PInt 7,
          comment = Text [Lit ''Mismatch: '', Str (PStr ''unknown''), Lit '' - '',
                          Str (PStr [])]\<rparr> \<and>
   \<not> unit_score (PInt 7)"
  by (simp add: quality_evaluator_def input_data_consistency_evaluator_def report_run_def
      blank_run_def main_text_def dict_get_def py_or_def or_empty_def company_of_def
      target_of_def judge_says_7_def parse_7_def or_judge_error_def py_truediv_def
      unit_score_def)

section \<open>The metric filter of the comparison\<close>

lemma collect_stats_empty_filter:
  "collect_stats (Some []) fs em = collect_stats None fs em"
  by (induction fs arbitrary: em) (auto simp: filtered_out_def)

lemma aggregate_runs_empty_filter:
  "aggregate_runs (Some []) rs em = aggregate_runs None rs em"
  by (induction rs arbitrary: em)
     (auto simp: collect_stats_empty_filter split: option.splits)

lemma compare_loop_empty_filter:
  "compare_loop list_runs (Some []) names st = compare_loop list_runs None names st"
proof (induction names arbitrary: st)
  case Nil
  then show ?case by (cases st) simp
next
  case (Cons n names)
  then show ?case
    by (cases st) (simp add: aggregate_runs_empty_filter split: sum.splits)
qed

text \<open>
  Claim C10. Called with the empty list for \<^verbatim>\<open>metrics\<close>, the comparison filters
  nothing: it prints and returns exactly what it does with \<^verbatim>\<open>metrics\<close> omitted,
  and in both cases no metric key is filtered out.
\<close>

theorem empty_metrics_list_is_no_filter:
  "compare_experiments list_runs experiment_names (Some []) =
     compare_experiments list_runs experiment_names None \<and>
   (\<forall>k. \<not> filtered_out (Some []) k \<and> \<not> filtered_out None k)"
  by (simp add: compare_experiments_def compare_loop_empty_filter filtered_out_def)

section \<open>The comparison of experiments\<close>

lemma extend_vals_Nil [simp]: "extend_vals x [] = x"
  by (simp add: extend_vals_def)

lemma extend_vals_append: "extend_vals (extend_vals x ys) zs = extend_vals x (ys @ zs)"
  by (auto simp: extend_vals_def split: option.splits)

lemma map_of_append_val:
  "map_of (append_val k v em) k' =
     (if k' = k then extend_vals (map_of em k) [v] else map_of em k')"
  by (simp add: append_val_def update_conv' extend_vals_def)

lemma map_of_collect_stats:
  "map_of (collect_stats metrics fs em) k = extend_vals (map_of em k) (stat_vals metrics k fs)"
proof (induction fs arbitrary: em)
  case Nil
  then show ?case by (simp add: stat_vals_def)
next
  case (Cons p fs)
  obtain k' st where p: "p = (k', st)" by (cases p)
  have sv: "stat_vals metrics k ((k', st) # fs) =
      (if k' = k \<and> \<not> filtered_out metrics k then [stats_avg st] else []) @ stat_vals metrics k fs"
    by (simp add: stat_vals_def)
  show ?case
    by (simp add: p sv Cons.IH map_of_append_val extend_vals_append del: append_Cons)
qed

lemma map_of_aggregate_runs:
  "map_of (aggregate_runs metrics rs em) k =
     extend_vals (map_of em k) (concat (map (contribution metrics k) rs))"
proof (induction rs arbitrary: em)
  case Nil
  then show ?case by simp
next
  case (Cons r rs)
  show ?case
    by (cases "feedback_stats r")
       (simp_all add: Cons.IH contribution_def map_of_collect_stats extend_vals_append
          stat_vals_def)
qed

lemma distinct_append_val: "distinct (map fst em) \<Longrightarrow> distinct (map fst (append_val k v em))"
  by (simp add: append_val_def distinct_update)

lemma distinct_collect_stats:
  "distinct (map fst em) \<Longrightarrow> distinct (map fst (collect_stats metrics fs em))"
  by (induction fs arbitrary: em) (auto simp: distinct_append_val)

lemma distinct_aggregate_runs:
  "distinct (map fst em) \<Longrightarrow> distinct (map fst (aggregate_runs metrics rs em))"
  by (induction rs arbitrary: em) (auto simp: distinct_collect_stats split: option.splits)

lemma map_of_fold_mean:
  "distinct (map fst xs) \<Longrightarrow>
   map_of (fold (\<lambda>(k, vals). AList.update k (mean vals)) xs acc) k =
     (case map_of xs k of Some vs \<Rightarrow> Some (mean vs) | None \<Rightarrow> map_of acc k)"
proof (induction xs arbitrary: acc)
  case Nil
  then show ?case by simp
next
  case (Cons p xs)
  obtain k0 v0 where p: "p = (k0, v0)" by (cases p)
  have "k0 \<notin> fst ` set xs" using Cons.prems p by auto
  then have none: "map_of xs k0 = None" by (simp add: map_of_eq_None_iff)
  show ?case using Cons p none by (auto simp: update_conv' split: option.splits)
qed

lemma map_of_averages:
  "distinct (map fst em) \<Longrightarrow> map_of (averages em) k = map_option mean (map_of em k)"
  by (simp add: averages_def map_of_fold_mean split: option.splits)

lemma map_of_experiment_averages:
  "map_of (averages (aggregate_runs metrics rs [])) k = metric_mean metrics k rs"
proof -
  have "distinct (map fst (aggregate_runs metrics rs []))"
    by (rule distinct_aggregate_runs) simp
  then show ?thesis
    by (simp add: map_of_averages map_of_aggregate_runs metric_mean_def extend_vals_def Let_def)
qed

text \<open>The loop over the experiment names, when every fetch succeeds.\<close>

lemma compare_loop_view:
  assumes "\<forall>n\<in>set names. \<exists>rs. list_runs n = Inr rs"
  shows "\<exists>agg. compare_loop list_runs metrics names (printed, comparison) =
           (printed @ map no_runs_warning (filter (\<lambda>n. list_runs n = Inr []) names), Inr agg) \<and>
         (\<forall>n. map_of agg n =
            (if n \<in> set names \<and> list_runs n \<noteq> Inr []
             then Some (averages (aggregate_runs metrics (projr (list_runs n)) []))
             else map_of comparison n))"
  using assms
proof (induction names arbitrary: printed comparison)
  case Nil
  then show ?case by simp
next
  case (Cons n names)
  from Cons.prems obtain rs where rs: "list_runs n = Inr rs" by auto
  have rest: "\<forall>n\<in>set names. \<exists>rs. list_runs n = Inr rs" using Cons.prems by simp
  show ?case
  proof (cases "rs = []")
    case True
    from Cons.IH[OF rest, of "printed @ [no_runs_warning n]" comparison]
    obtain agg where agg:
      "compare_loop list_runs metrics names (printed @ [no_runs_warning n], comparison) =
         ((printed @ [no_runs_warning n]) @
            map no_runs_warning (filter (\<lambda>n. list_runs n = Inr []) names), Inr agg)"
      "\<forall>m. map_of agg m =
            (if m \<in> set names \<and> list_runs m \<noteq> Inr []
             then Some (averages (aggregate_runs metrics (projr (list_runs m)) []))
             else map_of comparison m)" by blast
    show ?thesis
      using rs True agg by (intro exI[of _ agg]) auto
  next
    case False
    let ?c = "AList.update n (averages (aggregate_runs metrics rs [])) comparison"
    from Cons.IH[OF rest, of printed ?c]
    obtain agg where agg:
      "compare_loop list_runs metrics names (printed, ?c) =
         (printed @ map no_runs_warning (filter (\<lambda>n. list_runs n = Inr []) names), Inr agg)"
      "\<forall>m. map_of agg m =
            (if m \<in> set names \<and> list_runs m \<noteq> Inr []
             then Some (averages (aggregate_runs metrics (projr (list_runs m)) []))
             else map_of ?c m)" by blast
    show ?thesis
      using rs False agg by (intro exI[of _ agg]) (auto simp: update_conv')
  qed
qed

lemma compare_experiments_view:
  assumes "\<forall>n\<in>set names. \<exists>rs. list_runs n = Inr rs"
  shows "\<exists>agg. compare_experiments list_runs names metrics =
           (map no_runs_warning (filter (\<lambda>n. list_runs n = Inr []) names), Inr agg) \<and>
         (\<forall>n. map_of agg n =
            (if n \<in> set names \<and> list_runs n \<noteq> Inr []
             then Some (averages (aggregate_runs metrics (projr (list_runs n)) []))
             else None))"
proof -
  from compare_loop_view[OF assms, of metrics "[]" "[]"] obtain agg where
    a: "compare_loop list_runs metrics names ([], []) =
         ([] @ map no_runs_warning (filter (\<lambda>n. list_runs n = Inr []) names), Inr agg)"
       "\<forall>n. map_of agg n =
            (if n \<in> set names \<and> list_runs n \<noteq> Inr []
             then Some (averages (aggregate_runs metrics (projr (list_runs n)) []))
             else map_of [] n)" by blast
  show ?thesis
    unfolding compare_experiments_def using a by (intro exI[of _ agg]) auto
qed

lemma aggregate_runs_append:
  "aggregate_runs metrics (xs @ ys) em = aggregate_runs metrics ys (aggregate_runs metrics xs em)"
  by (induction xs arbitrary: em) simp_all

lemma aggregate_runs_skip:
  "feedback_stats r = None \<or> feedback_stats r = Some [] \<Longrightarrow>
   aggregate_runs metrics (rs1 @ r # rs2) em = aggregate_runs metrics (rs1 @ rs2) em"
  by (auto simp: aggregate_runs_append)



text \<open>
  Claim C4. When every fetch returns (none raises), the comparison returns an
  Aggregation; for every experiment name whose fetch returns no runs it prints
  the warning and the name is not a key of the Aggregation; and an experiment
  with runs maps each metric to the mean of what its runs contribute to that
  metric. A run whose feedback statistics are absent or empty contributes to no
  metric, and leaving it out changes nothing; a run with statistics contributes
  nothing to a metric key it lacks, and contributes its \<^verbatim>\<open>avg\<close> to every key it
  has (and that is not filtered out).
\<close>

theorem compare_skips_absent_data:
  assumes "\<forall>n\<in>set experiment_names. \<exists>rs. list_runs n = Inr rs"
  shows
    "(\<exists>printed agg.
        compare_experiments list_runs experiment_names metrics = (printed, Inr agg) \<and>
        (\<forall>n\<in>set experiment_names. list_runs n = Inr [] \<longrightarrow>
           no_runs_warning n \<in> set printed \<and> n \<notin> fst ` set agg) \<and>
        (\<forall>n\<in>set experiment_names. \<forall>rs. list_runs n = Inr rs \<and> rs \<noteq> [] \<longrightarrow>
           (\<exists>m. map_of agg n = Some m \<and> (\<forall>k. map_of m k = metric_mean metrics k rs)))) \<and>
     (feedback_stats r = None \<or> feedback_stats r = Some [] \<longrightarrow>
        (\<forall>k. contribution metrics k r = []) \<and>
        aggregate_runs metrics (rs1 @ r # rs2) [] = aggregate_runs metrics (rs1 @ rs2) []) \<and>
     (\<forall>fs. feedback_stats r = Some fs \<longrightarrow>
        (\<forall>k. k \<notin> fst ` set fs \<longrightarrow> contribution metrics k r = []) \<and>
        (\<forall>(k, st) \<in> set fs. \<not> filtered_out metrics k \<longrightarrow>
           stats_avg st \<in> set (contribution metrics k r)))"
proof (intro conjI)
  from compare_experiments_view[OF assms, of metrics] obtain agg where
    a: "compare_experiments list_runs experiment_names metrics =
          (map no_runs_warning (filter (\<lambda>n. list_runs n = Inr []) experiment_names), Inr agg)"
       "\<forall>n. map_of agg n =
            (if n \<in> set experiment_names \<and> list_runs n \<noteq> Inr []
             then Some (averages (aggregate_runs metrics (projr (list_runs n)) []))
             else None)" by blast
  let ?printed = "map no_runs_warning (filter (\<lambda>n. list_runs n = Inr []) experiment_names)"
  have 1: "\<forall>n\<in>set experiment_names. list_runs n = Inr [] \<longrightarrow>
           no_runs_warning n \<in> set ?printed \<and> n \<notin> fst ` set agg"
  proof (intro ballI impI)
    fix n assume n: "n \<in> set experiment_names" "list_runs n = Inr []"
    then have "map_of agg n = None" using a(2) by simp
    then have "n \<notin> fst ` set agg" by (simp add: map_of_eq_None_iff)
    moreover have "no_runs_warning n \<in> set ?printed" using n by auto
    ultimately show "no_runs_warning n \<in> set ?printed \<and> n \<notin> fst ` set agg" by simp
  qed
  have 2: "\<forall>n\<in>set experiment_names. \<forall>rs. list_runs n = Inr rs \<and> rs \<noteq> [] \<longrightarrow>
           (\<exists>m. map_of agg n = Some m \<and> (\<forall>k. map_of m k = metric_mean metrics k rs))"
  proof (intro ballI allI impI)
    fix n rs assume n: "n \<in> set experiment_names" "list_runs n = Inr rs \<and> rs \<noteq> []"
    then have "map_of agg n = Some (averages (aggregate_runs metrics rs []))"
      using a(2) by simp
    then show "\<exists>m. map_of agg n = Some m \<and> (\<forall>k. map_of m k = metric_mean metrics k rs)"
      by (simp add: map_of_experiment_averages)
  qed
  from a(1) 1 2 show "\<exists>printed agg.
        compare_experiments list_runs experiment_names metrics = (printed, Inr agg) \<and>
        (\<forall>n\<in>set experiment_names. list_runs n = Inr [] \<longrightarrow>
           no_runs_warning n \<in> set printed \<and> n \<notin> fst ` set agg) \<and>
        (\<forall>n\<in>set experiment_names. \<forall>rs. list_runs n = Inr rs \<and> rs \<noteq> [] \<longrightarrow>
           (\<exists>m. map_of agg n = Some m \<and> (\<forall>k. map_of m k = metric_mean metrics k rs)))"
    by blast
next
  show "feedback_stats r = None \<or> feedback_stats r = Some [] \<longrightarrow>
        (\<forall>k. contribution metrics k r = []) \<and>
        aggregate_runs metrics (rs1 @ r # rs2) [] = aggregate_runs metrics (rs1 @ rs2) []"
    using aggregate_runs_skip[of r metrics rs1 rs2 "[]"]
    by (auto simp: contribution_def stat_vals_def)
next
  show "\<forall>fs. feedback_stats r = Some fs \<longrightarrow>
        (\<forall>k. k \<notin> fst ` set fs \<longrightarrow> contribution metrics k r = []) \<and>
        (\<forall>(k, st) \<in> set fs. \<not> filtered_out metrics k \<longrightarrow>
           stats_avg st \<in> set (contribution metrics k r))"
    by (force simp: contribution_def stat_vals_def filter_empty_conv)
qed

theorem compare_skips_absent_data_witness:
  "\<exists>printed agg.
     compare_experiments example_backend [''ghost_exp'', ''exp_v1''] None = (printed, Inr agg) \<and>
     no_runs_warning ''ghost_exp'' \<in> set printed \<and> ''ghost_exp'' \<notin> fst ` set agg \<and>
     (\<exists>m. map_of agg ''exp_v1'' = Some m \<and>
          map_of m ''quality'' = Some (3 / 5) \<and> map_of m ''relevance'' = Some (3 / 5))"
proof -
  have ok: "\<forall>n\<in>set [''ghost_exp'', ''exp_v1'']. \<exists>rs. example_backend n = Inr rs"
    by (simp add: example_backend_def)
  have ghost: "example_backend ''ghost_exp'' = Inr []"
    by (simp add: example_backend_def)
  obtain rs where rs: "example_backend ''exp_v1'' = Inr rs" "rs \<noteq> []"
    "metric_mean None ''quality'' rs = Some (3 / 5)"
    "metric_mean None ''relevance'' rs = Some (3 / 5)"
    by (simp add: example_backend_def metric_mean_def contribution_def stat_vals_def
        stats_avg_def mean_def filtered_out_def blank_run_def)
  from compare_skips_absent_data[OF ok, of None blank_run "[]" "[]"]
  obtain printed agg where
    a: "compare_experiments example_backend [''ghost_exp'', ''exp_v1''] None = (printed, Inr agg)"
       "\<forall>n\<in>set [''ghost_exp'', ''exp_v1'']. example_backend n = Inr [] \<longrightarrow>
           no_runs_warning n \<in> set printed \<and> n \<notin> fst ` set agg"
       "\<forall>n\<in>set [''ghost_exp'', ''exp_v1'']. \<forall>rs. example_backend n = Inr rs \<and> rs \<noteq> [] \<longrightarrow>
           (\<exists>m. map_of agg n = Some m \<and> (\<forall>k. map_of m k = metric_mean None k rs))"
    by blast
  from a(2) ghost have g: "no_runs_warning ''ghost_exp'' \<in> set printed"
    "''ghost_exp'' \<notin> fst ` set agg" by auto
  from a(3) rs(1,2) obtain m where m: "map_of agg ''exp_v1'' = Some m"
    "\<forall>k. map_of m k = metric_mean None k rs" by auto
  from m(2) rs(3,4) have "map_of m ''quality'' = Some (3 / 5)"
    "map_of m ''relevance'' = Some (3 / 5)" by simp_all
  with a(1) g m(1) show ?thesis by blast
qed



section \<open>The tabular renderer\<close>

lemma map_of_distinct_mem:
  "distinct (map fst xs) \<Longrightarrow> (k, v) \<in> set xs \<Longrightarrow> map_of xs k = Some v"
  by simp

lemma metric_values_sub:
  "distinct (map fst comparison) \<Longrightarrow> set sub \<subseteq> set comparison \<Longrightarrow>
   metric_values comparison (map fst sub) metric =
     Inr (map (\<lambda>p. avg_get (snd p) metric) sub)"
proof (induction sub)
  case Nil
  then show ?case by simp
next
  case (Cons p sub)
  obtain n m where p: "p = (n, m)" by (cases p)
  with Cons.prems have mo: "map_of comparison n = Some m" by simp
  have "metric_of comparison n metric = Inr (avg_get m metric)"
    by (simp only: metric_of_def mo option.simps)
  with Cons p show ?case by simp
qed

lemma metric_values_all:
  "distinct (map fst comparison) \<Longrightarrow>
   metric_values comparison (map fst comparison) metric =
     Inr (map (\<lambda>p. avg_get (snd p) metric) comparison)"
  by (rule metric_values_sub) simp_all

lemma py_index_first:
  "x \<in> set xs \<Longrightarrow>
   \<exists>i. py_index x xs = Inr i \<and> i < length xs \<and> xs ! i = x \<and> (\<forall>j<i. xs ! j \<noteq> x)"
proof (induction xs)
  case Nil
  then show ?case by simp
next
  case (Cons y ys)
  show ?case
  proof (cases "x = y")
    case True
    then show ?thesis by simp
  next
    case False
    with Cons obtain i where i: "py_index x ys = Inr i" "i < length ys" "ys ! i = x"
      "\<forall>j<i. ys ! j \<noteq> x" by auto
    have "\<forall>j<Suc i. (y # ys) ! j \<noteq> x"
      using False i(4) by (auto simp: nth_Cons split: nat.splits)
    with False i show ?thesis by auto
  qed
qed

lemma Max_eq_Min_iff:
  fixes vals :: "rat list"
  assumes "vals \<noteq> []"
  shows "Max (set vals) = Min (set vals) \<longleftrightarrow> (\<forall>v\<in>set vals. v = hd vals)"
proof
  assume eq: "Max (set vals) = Min (set vals)"
  show "\<forall>v\<in>set vals. v = hd vals"
  proof
    fix v assume v: "v \<in> set vals"
    have h: "hd vals \<in> set vals" using assms by simp
    have "v \<le> Max (set vals)" "Min (set vals) \<le> v" using v by simp_all
    moreover have "hd vals \<le> Max (set vals)" "Min (set vals) \<le> hd vals" using h by simp_all
    ultimately show "v = hd vals" using eq by linarith
  qed
next
  assume all: "\<forall>v\<in>set vals. v = hd vals"
  have "set vals = {hd vals}" using assms all by (cases vals) auto
  then show "Max (set vals) = Min (set vals)" by simp
qed

lemma best_of_spec:
  fixes vals :: "rat list"
  assumes "length names = length vals"
  shows "if \<forall>v\<in>set vals. v = hd vals then best_of names vals = Inr None
         else \<exists>i<length vals. best_of names vals = Inr (Some (names ! i)) \<and>
                (\<forall>j<length vals. vals ! j \<le> vals ! i) \<and> (\<forall>j<i. vals ! j < vals ! i)"
proof (cases "vals = []")
  case True
  then show ?thesis by (simp add: best_of_def)
next
  case ne: False
  show ?thesis
  proof (cases "\<forall>v\<in>set vals. v = hd vals")
    case True
    with ne show ?thesis by (simp add: best_of_def Max_eq_Min_iff)
  next
    case False
    have mem: "Max (set vals) \<in> set vals" using ne by simp
    from py_index_first[OF mem] obtain i where
      i: "py_index (Max (set vals)) vals = Inr i" "i < length vals"
         "vals ! i = Max (set vals)" "\<forall>j<i. vals ! j \<noteq> Max (set vals)" by blast
    have le: "\<forall>j<length vals. vals ! j \<le> vals ! i" using i(3) by simp
    have lt: "\<forall>j<i. vals ! j < vals ! i"
    proof (intro allI impI)
      fix j assume "j < i"
      then have "vals ! j \<noteq> vals ! i" "vals ! j \<le> vals ! i" using i le by auto
      then show "vals ! j < vals ! i" by simp
    qed
    have "best_of names vals = Inr (Some (names ! i))"
      using ne False i assms by (simp add: best_of_def Max_eq_Min_iff py_nth_def)
    with False i(2) le lt show ?thesis by auto
  qed
qed

lemma best_of_ok:
  fixes vals :: "rat list"
  assumes "length names = length vals"
  shows "\<exists>b. best_of names vals = Inr b"
  using best_of_spec[OF assms] by (auto split: if_splits)

lemma metric_lines_ok:
  assumes "distinct (map fst comparison)"
  shows "\<exists>ls. metric_lines comparison (map fst comparison) metric = Inr ls"
proof -
  let ?vals = "map (\<lambda>p. avg_get (snd p) metric) comparison"
  have mv: "metric_values comparison (map fst comparison) metric = Inr ?vals"
    using assms by (rule metric_values_all)
  obtain b where "best_of (map fst comparison) ?vals = Inr b"
    using best_of_ok[of "map fst comparison" ?vals] by auto
  then show ?thesis by (simp add: metric_lines_def mv Let_def)
qed

lemma print_rows_concat:
  assumes "\<forall>m\<in>set ms. \<exists>ls. metric_lines comparison names m = Inr ls"
  shows "print_rows comparison names ms =
         Inr (concat (map (\<lambda>m. projr (metric_lines comparison names m)) ms))"
  using assms
proof (induction ms)
  case Nil
  then show ?case by simp
next
  case (Cons m ms)
  then obtain ls where "metric_lines comparison names m = Inr ls" by auto
  with Cons show ?case by simp
qed

text \<open>
  What the tabular renderer prints for a non-empty Aggregation: the header, a
  rule of the same length, and for each metric, in sorted order, its lines.
\<close>

lemma print_comparison_rows:
  assumes "comparison \<noteq> []" and "distinct (map fst comparison)"
  shows "print_comparison comparison =
     Inr ([Lit (ljust 25 ''Metric'' @ '' | '' @ join '' | '' (map (ljust 15) (map fst comparison)))] #
          [Lit (replicate
                  (length (ljust 25 ''Metric'' @ '' | '' @
                           join '' | '' (map (ljust 15) (map fst comparison))))
                  CHR ''-'')] #
          concat (map (\<lambda>m. projr (metric_lines comparison (map fst comparison) m))
                    (sorted_metrics comparison)))"
proof -
  have "\<forall>m\<in>set (sorted_metrics comparison).
      \<exists>ls. metric_lines comparison (map fst comparison) m = Inr ls"
    using metric_lines_ok[OF assms(2)] by blast
  from print_rows_concat[OF this] show ?thesis
    using assms(1) by (simp add: print_comparison_def Let_def)
qed

text \<open>The table printed for the scenario of two experiments.\<close>

lemma print_comparison_example:
  "print_comparison example_AB =
   Inr [[Lit (ljust 25 ''Metric'' @ '' | '' @ ljust 15 ''A'' @ '' | '' @ ljust 15 ''B'')],
        [Lit (replicate 61 CHR ''-'')],
        [Lit (ljust 25 ''accuracy'' @ '' | ''), Fixed 15 3 (9 / 10),
         Lit '' | '', Fixed 15 3 (19 / 20), Lit '' | ''],
        [Lit ''  -> Best: B''],
        [Lit (ljust 25 ''latency'' @ '' | ''), Fixed 15 3 (4 / 5),
         Lit '' | '', Fixed 15 3 (2 / 5), Lit '' | ''],
        [Lit ''  -> Best: A'']]"
  by code_simp

text \<open>
  Claim C7, as amended. In the tabular renderer, for every metric (absent keys
  read as 0) and an Aggregation with distinct experiment names: when all
  experiments have the same value, the row is printed with no \<^verbatim>\<open>Best\<close> line;
  otherwise the row is followed by one \<^verbatim>\<open>Best\<close> line, which names the first
  experiment, in the Aggregation's order, whose value is the maximum of the
  row: no experiment has a greater value and every earlier one has a smaller
  value. A later experiment may have the same value.
\<close>

theorem best_line_names_first_maximum:
  assumes "distinct (map fst comparison)"
  shows
    "let names = map fst comparison;
         val = (\<lambda>j. avg_get (snd (comparison ! j)) metric);
         row = Lit (ljust 25 metric @ '' | '') #
               concat (map (\<lambda>p. [Fixed 15 3 (avg_get (snd p) metric), Lit '' | '']) comparison)
     in if \<forall>p\<in>set comparison. avg_get (snd p) metric = avg_get (snd (hd comparison)) metric
        then metric_lines comparison names metric = Inr [row]
        else \<exists>i<length comparison.
               metric_lines comparison names metric =
                 Inr [row, [Lit (''  -> Best: '' @ fst (comparison ! i))]] \<and>
               (\<forall>j<length comparison. val j \<le> val i) \<and> (\<forall>j<i. val j < val i)"
proof -
  define vals where "vals = map (\<lambda>p. avg_get (snd p) metric) comparison"
  define names where "names = map fst comparison"
  define row where "row = Lit (ljust 25 metric @ '' | '') #
     concat (map (\<lambda>val. [Fixed 15 3 val, Lit '' | '']) vals)"
  have mv: "metric_values comparison names metric = Inr vals"
    unfolding names_def vals_def using assms by (rule metric_values_all)
  have len: "length names = length vals" by (simp add: names_def vals_def)
  have row: "Lit (ljust 25 metric @ '' | '') #
      concat (map (\<lambda>p. [Fixed 15 3 (avg_get (snd p) metric), Lit '' | '']) comparison) = row"
    by (simp add: row_def vals_def comp_def)
  have ml: "metric_lines comparison names metric =
      and_then (best_of names vals) (\<lambda>best.
        Inr (case best of None \<Rightarrow> [row] | Some name \<Rightarrow> [row, [Lit (''  -> Best: '' @ name)]]))"
    unfolding row_def by (simp add: metric_lines_def mv Let_def)
  have tied: "(\<forall>v\<in>set vals. v = hd vals) \<longleftrightarrow>
      (\<forall>p\<in>set comparison. avg_get (snd p) metric = avg_get (snd (hd comparison)) metric)"
    by (cases comparison) (auto simp: vals_def)
  show ?thesis
  proof (cases "\<forall>v\<in>set vals. v = hd vals")
    case True
    with best_of_spec[OF len] have "best_of names vals = Inr None" by simp
    with True tied ml show ?thesis
      by (simp add: Let_def names_def[symmetric] row)
  next
    case False
    with best_of_spec[OF len] obtain i where i: "i < length vals"
      "best_of names vals = Inr (Some (names ! i))"
      "\<forall>j<length vals. vals ! j \<le> vals ! i" "\<forall>j<i. vals ! j < vals ! i"
      by auto
    have ilen: "i < length comparison" using i(1) by (simp add: vals_def)
    have nm: "names ! i = fst (comparison ! i)" using ilen by (simp add: names_def)
    have v: "\<And>j. j < length comparison \<Longrightarrow> vals ! j = avg_get (snd (comparison ! j)) metric"
      by (simp add: vals_def)
    have le: "\<forall>j<length comparison.
        avg_get (snd (comparison ! j)) metric \<le> avg_get (snd (comparison ! i)) metric"
      using i(3) v ilen by (simp add: vals_def)
    have lt: "\<forall>j<i. avg_get (snd (comparison ! j)) metric < avg_get (snd (comparison ! i)) metric"
      using i(4) v ilen by (simp add: vals_def)
    have "metric_lines comparison names metric =
        Inr [row, [Lit (''  -> Best: '' @ fst (comparison ! i))]]"
      by (simp add: ml i(2) nm)
    with False tied ilen le lt show ?thesis
      unfolding Let_def names_def[symmetric] row by auto
  qed
qed

theorem best_line_witness:
  "distinct (map fst example_tie) \<and>
   (\<exists>i<length example_tie.
      metric_lines example_tie (map fst example_tie) ''accuracy'' =
        Inr [Lit (ljust 25 ''accuracy'' @ '' | '') #
               concat (map (\<lambda>p. [Fixed 15 3 (avg_get (snd p) ''accuracy''), Lit '' | ''])
                         example_tie),
             [Lit (''  -> Best: '' @ fst (example_tie ! i))]])"
proof -
  have d: "distinct (map fst example_tie)" by (simp add: example_tie_def)
  have ne: "\<not> (\<forall>p\<in>set example_tie.
      avg_get (snd p) ''accuracy'' = avg_get (snd (hd example_tie)) ''accuracy'')"
    by (simp add: example_tie_def avg_get_def)
  from best_line_names_first_maximum[OF d, of "''accuracy''"] ne
  show ?thesis using d unfolding Let_def by auto
qed

text \<open>
  The claim as stated asks for the experiment with the strictly maximum value.
  With three experiments of which the first two share the maximum, a
  \<^verbatim>\<open>Best\<close> line is printed although no experiment is strictly best; it names
  the first of the two.
\<close>

theorem best_line_tie_counterexample:
  "metric_lines example_tie [''A'', ''B'', ''C''] ''accuracy'' =
     Inr [[Lit (ljust 25 ''accuracy'' @ '' | ''), Fixed 15 3 (9 / 10), Lit '' | '',
           Fixed 15 3 (9 / 10), Lit '' | '', Fixed 15 3 (1 / 2), Lit '' | ''],
          [Lit ''  -> Best: A'']] \<and>
   metric_of example_tie ''A'' ''accuracy'' = Inr (9 / 10) \<and>
   metric_of example_tie ''B'' ''accuracy'' = Inr (9 / 10)"
  by (simp add: metric_lines_def metric_of_def avg_get_def example_tie_def best_of_def
      py_nth_def)

section \<open>The document renderer\<close>













lemma is_running_max:
  fixes v :: rat
  shows "(seen @ [v] \<noteq> [] \<and> v = Max (set (seen @ [v]))) \<longleftrightarrow> (\<forall>u\<in>set seen. u \<le> v)"
proof -
  have "v = Max (insert v (set seen)) \<longleftrightarrow> (\<forall>u\<in>set seen. u \<le> v)"
  proof
    assume eq: "v = Max (insert v (set seen))"
    show "\<forall>u\<in>set seen. u \<le> v"
    proof
      fix u assume "u \<in> set seen"
      then have "u \<le> Max (insert v (set seen))" by simp
      with eq show "u \<le> v" by simp
    qed
  next
    assume "\<forall>u\<in>set seen. u \<le> v"
    then have "Max (insert v (set seen)) = v" by (intro Max_eqI) auto
    then show "v = Max (insert v (set seen))" by simp
  qed
  then show ?thesis by simp
qed

text \<open>What the document renderer marks in bold: the running maxima of the row.\<close>

lemma report_cells_running_marks:
  assumes "distinct (map fst comparison)" and "set sub \<subseteq> set comparison"
  shows "report_cells comparison metric seen (map fst sub) =
         Inr (running_marks seen (map (\<lambda>p. avg_get (snd p) metric) sub))"
  using assms(2)
proof (induction sub arbitrary: seen)
  case Nil
  then show ?case by simp
next
  case (Cons p sub)
  obtain n m where p: "p = (n, m)" by (cases p)
  with Cons.prems assms(1) have mo: "map_of comparison n = Some m" by simp
  have val: "metric_of comparison n metric = Inr (avg_get m metric)"
    by (simp only: metric_of_def mo option.simps)
  have ih: "report_cells comparison metric (seen @ [avg_get m metric]) (map fst sub) =
      Inr (running_marks (seen @ [avg_get m metric]) (map (\<lambda>p. avg_get (snd p) metric) sub))"
    using Cons by simp
  show ?case
    using is_running_max[of seen "avg_get m metric"]
    by (simp add: p val ih Let_def del: Max_insert set_append)
qed

lemma report_row_running_marks:
  assumes "distinct (map fst comparison)"
  shows "report_row comparison metric =
         Inr (Lit (''| '' @ metric @ '' |'') #
              concat (map cell_text
                (running_marks [] (map (\<lambda>p. avg_get (snd p) metric) comparison))))"
  using report_cells_running_marks[OF assms, of comparison metric "[]"]
  by (simp add: report_row_def)

text \<open>
  Claim C8 (a cell is bold if and only if its value is the maximum of its row)
  fails on the code. In the scenario above the row of \<^verbatim>\<open>accuracy\<close> has both
  cells in bold, although 0.9 is not the maximum of the row: a cell is compared
  with the maximum of the values read so far, not of the whole row.
\<close>

theorem report_bolds_running_maximum:
  "generate_report example_AB None =
     Inr ([[Lit ''# Experiment Comparison Report\<newline>''], [Lit ''## Summary\<newline>''],
           [Lit ''| Metric | A | B |''], [Lit ''|---|---|---|''],
           [Lit ''| accuracy |'', Lit '' **'', Fixed 0 3 (9 / 10), Lit ''** |'',
            Lit '' **'', Fixed 0 3 (19 / 20), Lit ''** |''],
           [Lit ''| latency |'', Lit '' **'', Fixed 0 3 (4 / 5), Lit ''** |'',
            Lit '' '', Fixed 0 3 (2 / 5), Lit '' |''],
           [Lit ''\<newline>## Recommendations\<newline>''],
           [Lit ''- **Overall Best**: A (highest total score)'']],
          []) \<and>
   metric_of example_AB ''A'' ''accuracy'' = Inr (9 / 10) \<and>
   metric_of example_AB ''B'' ''accuracy'' = Inr (19 / 20)"
  by code_simp

end
